theory Spec2Isabelle
  imports Main "HOL-Library.Sublist"
begin

section \<open>Values decoded from JSON\<close>

text \<open>
  The script \<^verbatim>\<open>scripts/x402-generate.mjs\<close> reads every server response with
  \<^verbatim>\<open>await res.json()\<close> and then works on the decoded value with property reads,
  optional chaining, \<^verbatim>\<open>||\<close>, \<^verbatim>\<open>!\<close>, \<^verbatim>\<open>===\<close> and template literals. A decoded value is
  one of the cases below; \<open>Undefined\<close> is what a read of a missing property gives.

  A string is a list of code units (those below 256, which covers every literal the
  script compares with). Numbers are IEEE doubles in the engine; the script only ever
  asks whether a number is falsy and what its text is, so the number type is a
  parameter \<open>'n\<close> and what the engine does with it is the record \<open>engine\<close>.
  An object is the list of its own properties, read with \<open>map_of\<close>.
\<close>

datatype 'n js =
    Undefined
  | Null
  | Bool bool
  | Num 'n
  | Str string
  | Arr "'n js list"
  | Obj "(string \<times> 'n js) list"

record 'n engine =
  num_falsy :: "'n \<Rightarrow> bool"          \<comment> \<open>the number is \<open>+0\<close>, \<open>-0\<close> or \<open>NaN\<close>\<close>
  num_to_string :: "'n \<Rightarrow> string"   \<comment> \<open>\<open>Number::toString\<close>\<close>
  parse_int10 :: "string \<Rightarrow> 'n"     \<comment> \<open>\<open>parseInt(s, 10)\<close>, \<open>NaN\<close> included\<close>
  num_zero :: "'n"                   \<comment> \<open>the literal \<open>0\<close>\<close>

datatype js_error =
    TypeError        \<comment> \<open>a property read of \<open>null\<close>/\<open>undefined\<close>, or a value with no text\<close>
  | TransportError   \<comment> \<open>the promise of \<open>fetch\<close> rejects\<close>
  | DecodeError      \<comment> \<open>the promise of \<open>.json()\<close> rejects: the body is not JSON\<close>

text \<open>JavaScript truthiness (\<open>ToBoolean\<close>).\<close>

fun truthy :: "'n engine \<Rightarrow> 'n js \<Rightarrow> bool" where
  "truthy E Undefined = False"
| "truthy E Null = False"
| "truthy E (Bool b) = b"
| "truthy E (Num n) = (\<not> num_falsy E n)"
| "truthy E (Str s) = (s \<noteq> [])"
| "truthy E (Arr xs) = True"
| "truthy E (Obj kvs) = True"

text \<open>\<open>a || b\<close>: the left operand when it is truthy, else the right one.\<close>

definition js_or :: "'n engine \<Rightarrow> 'n js \<Rightarrow> 'n js \<Rightarrow> 'n js" where
  "js_or E a b = (if truthy E a then a else b)"

fun nullish :: "'n js \<Rightarrow> bool" where
  "nullish Undefined = True"
| "nullish Null = True"
| "nullish v = False"

text \<open>
  A property read on a value that is neither \<open>null\<close> nor \<open>undefined\<close>. The script reads
  only the data keys \<open>taskId\<close>, \<open>txHash\<close>, \<open>explorer\<close>, \<open>status\<close>, \<open>metadata\<close>, \<open>percent\<close>,
  \<open>progress\<close>, \<open>result\<close>, \<open>generation\<close>, \<open>video\<close>, \<open>image\<close>, \<open>gif\<close> and \<open>error\<close>; no
  prototype has any of them, so only an object's own property can answer.
\<close>

fun lookup :: "'n js \<Rightarrow> string \<Rightarrow> 'n js" where
  "lookup (Obj kvs) k = (case map_of kvs k of None \<Rightarrow> Undefined | Some v \<Rightarrow> v)"
| "lookup v k = Undefined"

text \<open>\<open>v.k\<close> throws a TypeError on \<open>null\<close> and \<open>undefined\<close>; \<open>v?.k\<close> gives \<open>undefined\<close> there.\<close>

definition get :: "'n js \<Rightarrow> string \<Rightarrow> js_error + 'n js" where
  "get v k = (if nullish v then Inl TypeError else Inr (lookup v k))"

definition get_opt :: "'n js \<Rightarrow> string \<Rightarrow> 'n js" where
  "get_opt v k = (if nullish v then Undefined else lookup v k)"

text \<open>
  \<open>Array.prototype.join\<close> with the default separator, on the texts of the elements;
  the first element whose text throws decides.
\<close>

fun join_texts :: "(js_error + string) list \<Rightarrow> js_error + string" where
  "join_texts [] = Inr []"
| "join_texts [r] = r"
| "join_texts (r # rs) =
     (case r of
        Inl e \<Rightarrow> Inl e
      | Inr s \<Rightarrow> (case join_texts rs of Inl e \<Rightarrow> Inl e | Inr t \<Rightarrow> Inr (s @ '','' @ t)))"

text \<open>
  \<open>ToString\<close>, as a template literal \<^verbatim>\<open>${v}\<close> and \<^verbatim>\<open>RegExp.prototype.test\<close> apply it.
  A decoded object has no callable property: with an own \<open>toString\<close> key the
  conversion finds no method that returns a primitive and throws; without one,
  \<open>Object.prototype.toString\<close> answers. An array joins its elements, \<open>null\<close> and
  \<open>undefined\<close> elements giving the empty text.
\<close>

fun to_string :: "'n engine \<Rightarrow> 'n js \<Rightarrow> js_error + string" where
  "to_string E Undefined = Inr ''undefined''"
| "to_string E Null = Inr ''null''"
| "to_string E (Bool b) = Inr (if b then ''true'' else ''false'')"
| "to_string E (Num n) = Inr (num_to_string E n)"
| "to_string E (Str s) = Inr s"
| "to_string E (Arr xs) =
     join_texts (map (\<lambda>x. if nullish x then Inr [] else to_string E x) xs)"
| "to_string E (Obj kvs) =
     (if ''toString'' \<in> set (map fst kvs) then Inl TypeError else Inr ''[object Object]'')"

definition renders :: "'n engine \<Rightarrow> 'n js \<Rightarrow> bool" where
  "renders E v = (case to_string E v of Inl e \<Rightarrow> False | Inr s \<Rightarrow> True)"

section \<open>Arguments and the generation request\<close>

text \<open>
  What one invocation reads from outside: the command line, three environment
  variables, whether each payment SDK can be loaded and set up (the three \<open>try\<close>
  blocks), the reply to the one POST, the reply to the \<open>i\<close>-th status GET, and the
  elapsed-seconds text the clock gives at the \<open>i\<close>-th poll
  (\<^verbatim>\<open>((Date.now() - startTime) / 1000).toFixed(0)\<close>).
\<close>

datatype 'n reply =
    Rejects                       \<comment> \<open>the request promise rejects\<close>
  | Responds nat "'n js option"   \<comment> \<open>HTTP status, and the body \<open>.json()\<close> decodes (or not)\<close>

record 'n inputs =
  argv :: "string list"
  env_agent_id :: "string option"
  env_evm_key :: "string option"
  env_solana_key :: "string option"
  dexter_ok :: bool
  x402_ok :: bool
  legacy_ok :: bool
  create_reply :: "'n reply"
  status_reply :: "nat \<Rightarrow> 'n reply"
  elapsed_at :: "nat \<Rightarrow> string"

text \<open>\<open>process.argv[i]\<close>: a string, or \<open>undefined\<close> past the end.\<close>

definition arg :: "'n inputs \<Rightarrow> nat \<Rightarrow> string option" where
  "arg inp i = (if i < length (argv inp) then Some (argv inp ! i) else None)"

text \<open>Truthiness and \<open>||\<close> on a value that is a string or \<open>undefined\<close>.\<close>

fun is_set :: "string option \<Rightarrow> bool" where
  "is_set None = False"
| "is_set (Some s) = (s \<noteq> [])"

definition or_default :: "string option \<Rightarrow> string \<Rightarrow> string" where
  "or_default a d = (if is_set a then the a else d)"

definition or_else :: "string option \<Rightarrow> string option \<Rightarrow> string option" where
  "or_else a b = (if is_set a then a else b)"

record 'n request =
  prompt :: string
  model :: string
  duration :: 'n
  agentId :: "string option"
  aspectRatio :: string
  imageData :: "string option"

text \<open>Lines 35 to 40, for a prompt \<open>p\<close> that passed the check of line 42.\<close>

definition request_of :: "'n engine \<Rightarrow> 'n inputs \<Rightarrow> string \<Rightarrow> 'n request" where
  "request_of E inp p =
     \<lparr> prompt = p,
       model = or_default (arg inp 3) ''xai-grok-imagine'',
       duration = parse_int10 E (or_default (arg inp 4) ''8''),
       agentId = or_else (or_else (arg inp 5) (env_agent_id inp)) None,
       aspectRatio = or_default (arg inp 6) ''9:16'',
       imageData = or_else (arg inp 7) None \<rparr>"

text \<open>
  The object handed to \<open>JSON.stringify\<close> on line 122. A spread of a falsy value
  (\<^verbatim>\<open>...(agentId && { agentId })\<close>) adds no property.
\<close>

definition request_body :: "'n request \<Rightarrow> 'n js" where
  "request_body r =
     Obj ([(''prompt'', Str (prompt r)),
           (''videoModel'', Str (model r)),
           (''duration'', Num (duration r)),
           (''aspectRatio'', Str (aspectRatio r))]
          @ (if is_set (agentId r) then [(''agentId'', Str (the (agentId r)))] else [])
          @ (if is_set (imageData r) then [(''imageData'', Str (the (imageData r)))] else []))"

section \<open>Polling policy\<close>

record policy =
  pollIntervalMs :: nat
  maxPolls :: nat
  timeoutLabel :: string

definition SLOW_MODELS :: "string list" where
  "SLOW_MODELS = [''fal-kling-o3'']"

text \<open>\<open>String.prototype.includes\<close>: the needle occurs at some position.\<close>

fun includes_str :: "string \<Rightarrow> string \<Rightarrow> bool" where
  "includes_str [] n = (n = [])"
| "includes_str (c # cs) n = (prefix n (c # cs) \<or> includes_str cs n)"

definition isSlowModel :: "string \<Rightarrow> bool" where
  "isSlowModel m = list_ex (\<lambda>t. prefix t m \<or> includes_str m ''kling'') SLOW_MODELS"

definition polling_policy :: "string \<Rightarrow> policy" where
  "polling_policy m =
     \<lparr> pollIntervalMs = (if isSlowModel m then 10000 else 5000),
       maxPolls = (if isSlowModel m then 120 else 120),
       timeoutLabel = (if isSlowModel m then ''20 minutes'' else ''10 minutes'') \<rparr>"

section \<open>Explorer link of a transaction reference\<close>

definition in_range :: "char \<Rightarrow> char \<Rightarrow> char \<Rightarrow> bool" where
  "in_range lo hi c = ((of_char lo :: nat) \<le> of_char c \<and> (of_char c :: nat) \<le> of_char hi)"

text \<open>The character class \<^verbatim>\<open>[1-9A-HJ-NP-Za-km-z]\<close>.\<close>

definition base58_char :: "char \<Rightarrow> bool" where
  "base58_char c =
     (in_range CHR ''1'' CHR ''9'' c \<or> in_range CHR ''A'' CHR ''H'' c \<or>
      in_range CHR ''J'' CHR ''N'' c \<or> in_range CHR ''P'' CHR ''Z'' c \<or>
      in_range CHR ''a'' CHR ''k'' c \<or> in_range CHR ''m'' CHR ''z'' c)"

text \<open>\<^verbatim>\<open>/^[1-9A-HJ-NP-Za-km-z]{80,90}$/.test(s)\<close> on a text \<open>s\<close>.\<close>

definition signature_pattern :: "string \<Rightarrow> bool" where
  "signature_pattern s = (80 \<le> length s \<and> length s \<le> 90 \<and> list_all base58_char s)"

text \<open>
  The conditional of lines 135 to 137 and again 177 to 179, on the text \<open>s\<close> of the
  transaction reference:
  \<^verbatim>\<open>paymentNetwork === 'solana' || /.../.test(tx) ? `https://solscan.io/tx/${tx}` : `https://basescan.org/tx/${tx}`\<close>.
\<close>

definition derived_explorer :: "string \<Rightarrow> string \<Rightarrow> string" where
  "derived_explorer paymentNetwork s =
     (if paymentNetwork = ''solana'' \<or> signature_pattern s
      then ''https://solscan.io/tx/'' @ s
      else ''https://basescan.org/tx/'' @ s)"

text \<open>
  The whole right-hand side of \<open>const explorer\<close>, given the \<open>explorer\<close> field \<open>ex\<close> of the
  same response. The right operand of \<open>||\<close> is evaluated only when \<open>ex\<close> is falsy; both
  the pattern test and the template take the text of \<open>tx\<close>.
\<close>

definition explorer_of :: "'n engine \<Rightarrow> string \<Rightarrow> 'n js \<Rightarrow> 'n js \<Rightarrow> js_error + 'n js" where
  "explorer_of E paymentNetwork ex tx =
     (if truthy E ex then Inr ex
      else (case to_string E tx of
              Inl e \<Rightarrow> Inl e
            | Inr s \<Rightarrow> Inr (Str (derived_explorer paymentNetwork s))))"

section \<open>The run: what it does to the outside\<close>

text \<open>
  Every call of \<open>console.log\<close>, \<open>console.warn\<close>, \<open>console.error\<close> and
  \<open>process.stdout.write\<close> is one event, in the order of the calls; the constructor
  stands for the fixed text of the line and carries the interpolated texts.
\<close>

datatype 'n event =
    UsageError                     \<comment> \<open>lines 43 to 45\<close>
  | NoKeyError                     \<comment> \<open>line 53\<close>
  | PaymentClient string           \<comment> \<open>lines 71, 89, 97: which client pays\<close>
  | DexterUnavailable              \<comment> \<open>line 73\<close>
  | InitError                      \<comment> \<open>line 99\<close>
  | NoClientError                  \<comment> \<open>line 106\<close>
  | Generating                     \<comment> \<open>line 111\<close>
  | PromptLine string              \<comment> \<open>line 112\<close>
  | ModelLine string               \<comment> \<open>line 113\<close>
  | DurationLine string            \<comment> \<open>line 114\<close>
  | AgentLine string               \<comment> \<open>line 115\<close>
  | ImageLine string               \<comment> \<open>line 116\<close>
  | BlankLine                      \<comment> \<open>line 117\<close>
  | GenerationFailed "'n js"       \<comment> \<open>line 128, with the decoded body\<close>
  | Queued string                  \<comment> \<open>line 132\<close>
  | PaymentLine string             \<comment> \<open>line 138\<close>
  | Polling                        \<comment> \<open>line 140\<close>
  | KlingNotice nat string         \<comment> \<open>line 153: interval in seconds, timeout label\<close>
  | Complete string                \<comment> \<open>line 170: elapsed\<close>
  | VideoLine string               \<comment> \<open>line 171\<close>
  | ThumbLine string               \<comment> \<open>line 172\<close>
  | GifLine string                 \<comment> \<open>line 173\<close>
  | ShareLine string               \<comment> \<open>line 174\<close>
  | TxLine string                  \<comment> \<open>line 180\<close>
  | Failed string string           \<comment> \<open>line 186: elapsed, error text\<close>
  | Progress string string string  \<comment> \<open>line 190: status, percent, elapsed\<close>
  | TimedOut string                \<comment> \<open>line 193: timeout label\<close>

record 'n world =
  posted :: "(string \<times> 'n js) list"   \<comment> \<open>calls of \<open>fetchWithPayment\<close>: URL and body object\<close>
  polled :: "string list"              \<comment> \<open>URLs of the status GETs\<close>
  sleeps :: "nat list"                 \<comment> \<open>milliseconds of each \<open>setTimeout\<close> wait\<close>
  out :: "'n event list"

definition world0 :: "'n world" where
  "world0 = \<lparr> posted = [], polled = [], sleeps = [], out = [] \<rparr>"

definition emit :: "'n event \<Rightarrow> 'n world \<Rightarrow> 'n world" where
  "emit e w = w\<lparr> out := out w @ [e] \<rparr>"

text \<open>
  How the process ends: \<open>process.exit(n)\<close>, or an exception nobody catches (a rejected
  top-level \<open>await\<close>), for which Node exits with code 1.
\<close>

datatype outcome = Exited nat | Threw js_error

fun exit_code :: "outcome \<Rightarrow> nat" where
  "exit_code (Exited n) = n"
| "exit_code (Threw e) = 1"

text \<open>
  A stretch of the script either ends the process (\<open>Inl\<close>, with the world as it was
  left) or goes on (\<open>Inr\<close>).
\<close>

type_synonym ('n, 'a) step = "(outcome \<times> 'n world) + 'a"

definition and_then :: "('n, 'a) step \<Rightarrow> ('a \<Rightarrow> ('n, 'b) step) \<Rightarrow> ('n, 'b) step" where
  "and_then r f = (case r of Inl t \<Rightarrow> Inl t | Inr a \<Rightarrow> f a)"

text \<open>An expression that may throw, evaluated in world \<open>w\<close>.\<close>

definition eval_in :: "'n world \<Rightarrow> js_error + 'a \<Rightarrow> ('n, 'a) step" where
  "eval_in w r = (case r of Inl e \<Rightarrow> Inl (Threw e, w) | Inr a \<Rightarrow> Inr a)"

text \<open>One output line whose text interpolates the value \<open>v\<close>.\<close>

definition print_value ::
  "'n engine \<Rightarrow> (string \<Rightarrow> 'n event) \<Rightarrow> 'n js \<Rightarrow> 'n world \<Rightarrow> ('n, 'n world) step" where
  "print_value E line v w = and_then (eval_in w (to_string E v)) (\<lambda>s. Inr (emit (line s) w))"

definition API_BASE :: string where
  "API_BASE = ''https://api.clawdvine.sh''"

subsection \<open>Payment client (lines 57 to 108)\<close>

text \<open>
  The result is the value of \<open>paymentNetwork\<close> once \<open>fetchWithPayment\<close> is set; the
  process ends when no client could be set up.
\<close>

definition setup_payment :: "'n inputs \<Rightarrow> 'n world \<Rightarrow> ('n, string \<times> 'n world) step" where
  "setup_payment inp w =
     (let (client, w1) =
            (if is_set (env_solana_key inp)
             then (if dexter_ok inp
                   then (Some ''solana'', emit (PaymentClient ''Solana USDC (via Dexter)'') w)
                   else (None, emit DexterUnavailable w))
             else (None, w))
      in if client = None \<and> is_set (env_evm_key inp)
         then (if x402_ok inp
               then Inr (''base'', emit (PaymentClient ''Base USDC (via x402)'') w1)
               else if legacy_ok inp
               then Inr (''base'', emit (PaymentClient ''Base USDC (via x402-fetch legacy)'') w1)
               else Inl (Exited 1, emit InitError w1))
         else (case client of
                 None \<Rightarrow> Inl (Exited 1, emit NoClientError w1)
               | Some paymentNetwork \<Rightarrow> Inr (paymentNetwork, w1)))"

subsection \<open>Header lines (lines 111 to 117)\<close>

definition header :: "'n engine \<Rightarrow> 'n request \<Rightarrow> 'n world \<Rightarrow> 'n world" where
  "header E r w =
     (let w1 = emit Generating w;
          w2 = emit (PromptLine (take 80 (prompt r) @ (if length (prompt r) > 80 then ''...'' else []))) w1;
          w3 = emit (ModelLine (model r)) w2;
          w4 = emit (DurationLine (num_to_string E (duration r))) w3;
          w5 = (if is_set (agentId r) then emit (AgentLine (the (agentId r))) w4 else w4);
          w6 = (if is_set (imageData r)
                then emit (ImageLine (if prefix ''data:'' (the (imageData r)) then ''[base64]''
                                      else take 60 (the (imageData r)) @ ''...'')) w5
                else w5)
      in emit BlankLine w6)"

subsection \<open>Submission (lines 119 to 130)\<close>

text \<open>
  The condition of line 127, \<^verbatim>\<open>res.status !== 202 || !body.taskId\<close>: the right
  operand is evaluated only for a 202, and the read throws on a \<open>null\<close> body.
\<close>

definition submission_rejected :: "'n engine \<Rightarrow> nat \<Rightarrow> 'n js \<Rightarrow> js_error + bool" where
  "submission_rejected E st body =
     (if st \<noteq> 202 then Inr True
      else (case get body ''taskId'' of Inl e \<Rightarrow> Inl e | Inr t \<Rightarrow> Inr (\<not> truthy E t)))"

text \<open>
  One call of \<open>fetchWithPayment\<close>, then the decoding and the check. The result that goes
  on to polling is the decoded body.
\<close>

definition submit ::
  "'n engine \<Rightarrow> 'n request \<Rightarrow> 'n reply \<Rightarrow> 'n world \<Rightarrow> ('n, 'n js \<times> 'n world) step" where
  "submit E r rep w =
     (let w1 = w\<lparr> posted := posted w @ [(API_BASE @ ''/generation/create'', request_body r)] \<rparr>
      in case rep of
           Rejects \<Rightarrow> Inl (Threw TransportError, w1)
         | Responds st None \<Rightarrow> Inl (Threw DecodeError, w1)
         | Responds st (Some body) \<Rightarrow>
             and_then (eval_in w1 (submission_rejected E st body))
               (\<lambda>rejected. if rejected then Inl (Exited 1, emit (GenerationFailed body) w1)
                           else Inr (body, w1)))"

subsection \<open>After a queued submission (lines 132 to 140)\<close>

definition announce :: "'n engine \<Rightarrow> string \<Rightarrow> 'n js \<Rightarrow> 'n world \<Rightarrow> ('n, 'n world) step" where
  "announce E paymentNetwork body w =
     and_then (eval_in w (get body ''taskId'')) (\<lambda>t.
     and_then (print_value E Queued t w) (\<lambda>w1.
     and_then (eval_in w1 (get body ''txHash'')) (\<lambda>tx.
     and_then
       (if truthy E tx
        then and_then (eval_in w1 (get body ''explorer'')) (\<lambda>ex.
             and_then (eval_in w1 (explorer_of E paymentNetwork ex tx)) (\<lambda>explorer.
             print_value E PaymentLine explorer w1))
        else Inr w1) (\<lambda>w2.
     Inr (emit Polling w2)))))"

subsection \<open>One iteration of the polling loop (lines 157 to 190)\<close>

text \<open>
  The branch of line 164, for a decoded \<open>status\<close> that is neither \<open>null\<close> nor
  \<open>undefined\<close> (line 161 has read a property of it): it always ends the process.
\<close>

definition report_completed ::
  "'n engine \<Rightarrow> string \<Rightarrow> 'n js \<Rightarrow> string \<Rightarrow> 'n js \<Rightarrow> 'n world \<Rightarrow> ('n, 'n world) step" where
  "report_completed E paymentNetwork taskId elapsed status w =
     (let gen = get_opt (lookup status ''result'') ''generation'';
          video = get_opt gen ''video'';
          thumb = get_opt gen ''image'';
          gif = get_opt gen ''gif''
      in and_then (eval_in w (to_string E taskId)) (\<lambda>tid.
         let shareUrl = ''https://clawdvine.sh/media/'' @ tid;
             w1 = emit (Complete elapsed) w
         in and_then (print_value E VideoLine video w1) (\<lambda>w2.
            and_then (if truthy E thumb then print_value E ThumbLine thumb w2 else Inr w2) (\<lambda>w3.
            and_then (if truthy E gif then print_value E GifLine gif w3 else Inr w3) (\<lambda>w4.
            let w5 = emit (ShareLine shareUrl) w4
            in and_then
                 (if truthy E (lookup status ''txHash'')
                  then and_then
                         (eval_in w5 (explorer_of E paymentNetwork (lookup status ''explorer'')
                                        (lookup status ''txHash'')))
                         (\<lambda>explorer. print_value E TxLine explorer w5)
                  else Inr w5) (\<lambda>w6.
               Inl (Exited 0, w6)))))))"

text \<open>\<^verbatim>\<open>status.metadata?.percent || status.progress || 0\<close> of line 161.\<close>

definition percent_of :: "'n engine \<Rightarrow> 'n js \<Rightarrow> js_error + 'n js" where
  "percent_of E status =
     (case get status ''metadata'' of
        Inl e \<Rightarrow> Inl e
      | Inr metadata \<Rightarrow>
          Inr (js_or E (js_or E (get_opt metadata ''percent'') (lookup status ''progress''))
                 (Num (num_zero E))))"

text \<open>\<open>Inr\<close> is the fall-through of line 190: the loop goes on.\<close>

definition poll_once ::
  "'n engine \<Rightarrow> string \<Rightarrow> 'n js \<Rightarrow> policy \<Rightarrow> 'n reply \<Rightarrow> string \<Rightarrow> 'n world
     \<Rightarrow> ('n, 'n world) step" where
  "poll_once E paymentNetwork taskId pol rep elapsed w =
     (let w1 = w\<lparr> sleeps := sleeps w @ [pollIntervalMs pol] \<rparr>
      in and_then (eval_in w1 (to_string E taskId)) (\<lambda>tid.
         let w2 = w1\<lparr> polled := polled w1 @ [API_BASE @ ''/generation/'' @ tid @ ''/status''] \<rparr>
         in case rep of
              Rejects \<Rightarrow> Inl (Threw TransportError, w2)
            | Responds st None \<Rightarrow> Inl (Threw DecodeError, w2)
            | Responds st (Some status) \<Rightarrow>
                and_then (eval_in w2 (percent_of E status)) (\<lambda>pct.
                if lookup status ''status'' = Str ''completed''
                then report_completed E paymentNetwork taskId elapsed status w2
                else if lookup status ''status'' = Str ''failed''
                then and_then (print_value E (Failed elapsed) (lookup status ''error'') w2)
                       (\<lambda>w3. Inl (Exited 1, w3))
                else and_then (eval_in w2 (to_string E (lookup status ''status''))) (\<lambda>s.
                     and_then (eval_in w2 (to_string E pct)) (\<lambda>p.
                     Inr (emit (Progress s p elapsed) w2))))))"

subsection \<open>The loop and the timeout (lines 156 to 194)\<close>

function poll_loop ::
  "'n engine \<Rightarrow> 'n inputs \<Rightarrow> string \<Rightarrow> 'n js \<Rightarrow> policy \<Rightarrow> nat \<Rightarrow> 'n world
     \<Rightarrow> outcome \<times> 'n world" where
  "poll_loop E inp paymentNetwork taskId pol i w =
     (if i < maxPolls pol
      then (case poll_once E paymentNetwork taskId pol (status_reply inp i) (elapsed_at inp i) w of
              Inl t \<Rightarrow> t
            | Inr w' \<Rightarrow> poll_loop E inp paymentNetwork taskId pol (Suc i) w')
      else (Exited 1, emit (TimedOut (timeoutLabel pol)) w))"
  by pat_completeness auto
termination
  by (relation "measure (\<lambda>(E, inp, paymentNetwork, taskId, pol, i, w). maxPolls pol - i)") auto

declare poll_loop.simps [simp del]

text \<open>Lines 143 to 194: the policy is fixed from the model, then the loop runs.\<close>

definition polling ::
  "'n engine \<Rightarrow> 'n inputs \<Rightarrow> string \<Rightarrow> string \<Rightarrow> 'n js \<Rightarrow> 'n world \<Rightarrow> outcome \<times> 'n world" where
  "polling E inp paymentNetwork m body w =
     (let pol = polling_policy m
      in case eval_in w (get body ''taskId'') of
           Inl t \<Rightarrow> t
         | Inr taskId \<Rightarrow>
             poll_loop E inp paymentNetwork taskId pol 0
               (if isSlowModel m
                then emit (KlingNotice (pollIntervalMs pol div 1000) (timeoutLabel pol)) w
                else w))"

subsection \<open>The whole script\<close>

definition run :: "'n engine \<Rightarrow> 'n inputs \<Rightarrow> outcome \<times> 'n world" where
  "run E inp =
     (if \<not> is_set (arg inp 2) then (Exited 1, emit UsageError world0)
      else if \<not> is_set (env_evm_key inp) \<and> \<not> is_set (env_solana_key inp)
      then (Exited 1, emit NoKeyError world0)
      else (case setup_payment inp world0 of
              Inl t \<Rightarrow> t
            | Inr (paymentNetwork, w1) \<Rightarrow>
                (let r = request_of E inp (the (arg inp 2))
                 in case submit E r (create_reply inp) (header E r w1) of
                      Inl t \<Rightarrow> t
                    | Inr (body, w2) \<Rightarrow>
                        (case announce E paymentNetwork body w2 of
                           Inl t \<Rightarrow> t
                         | Inr w3 \<Rightarrow> polling E inp paymentNetwork (model r) body w3))))"

section \<open>An engine on the natural numbers\<close>

text \<open>
  The concrete runs below need one engine. This one has the natural numbers for its
  numbers: decimal text, zero the only falsy number, and a parse of the leading
  decimal digits (it is only ever applied to digit strings here).
\<close>

definition digit_char :: "nat \<Rightarrow> char" where
  "digit_char d = ''0123456789'' ! d"

function decimal :: "nat \<Rightarrow> string" where
  "decimal n = (if n < 10 then [digit_char n] else decimal (n div 10) @ [digit_char (n mod 10)])"
  by pat_completeness auto
termination
  by (relation "measure id") auto

declare decimal.simps [simp del]

fun leading_digits :: "nat \<Rightarrow> string \<Rightarrow> nat" where
  "leading_digits acc [] = acc"
| "leading_digits acc (c # cs) =
     (if in_range CHR ''0'' CHR ''9'' c
      then leading_digits (10 * acc + (of_char c - of_char CHR ''0'')) cs
      else acc)"

definition nat_engine :: "nat engine" where
  "nat_engine = \<lparr> num_falsy = (\<lambda>n. n = 0), num_to_string = decimal,
                   parse_int10 = leading_digits 0, num_zero = 0 \<rparr>"

section \<open>Replies the statements below speak about\<close>

text \<open>
  A reply on which the loop falls through to line 190: the body decodes, line 161 can
  read it, its \<open>status\<close> is neither of the two terminal strings, and the two values the
  progress line interpolates have a text.
\<close>

definition in_progress :: "'n engine \<Rightarrow> 'n reply \<Rightarrow> bool" where
  "in_progress E rep =
     (case rep of
        Rejects \<Rightarrow> False
      | Responds st None \<Rightarrow> False
      | Responds st (Some status) \<Rightarrow>
          lookup status ''status'' \<noteq> Str ''completed'' \<and>
          lookup status ''status'' \<noteq> Str ''failed'' \<and>
          renders E (lookup status ''status'') \<and>
          (case percent_of E status of Inl e \<Rightarrow> False | Inr pct \<Rightarrow> renders E pct))"

text \<open>
  Every field the completion report may print has a text. That holds of any string,
  number, boolean, \<open>null\<close> or absent field; only an object with an own \<open>toString\<close>
  property (alone or inside an array) has none.
\<close>

definition printable_report :: "'n engine \<Rightarrow> 'n js \<Rightarrow> bool" where
  "printable_report E status =
     (let gen = get_opt (lookup status ''result'') ''generation''
      in renders E (get_opt gen ''video'') \<and> renders E (get_opt gen ''image'') \<and>
         renders E (get_opt gen ''gif'') \<and> renders E (lookup status ''txHash'') \<and>
         renders E (lookup status ''explorer''))"

text \<open>
  Where a stretch of the script leaves the world, whether it ended the process or not;
  and two worlds with the same traffic (requests and waits), whatever was printed.
\<close>

definition world_of :: "('n, 'n world) step \<Rightarrow> 'n world" where
  "world_of r = (case r of Inl (oc, w) \<Rightarrow> w | Inr w \<Rightarrow> w)"

definition same_io :: "'n world \<Rightarrow> 'n world \<Rightarrow> bool" where
  "same_io w w' = (posted w' = posted w \<and> polled w' = polled w \<and> sleeps w' = sleeps w)"

section \<open>Sample invocations\<close>

text \<open>
  \<^verbatim>\<open>EVM_PRIVATE_KEY=0x1 node x402-generate.mjs "A sunset over mountains" xai-grok-imagine 8\<close>
  with the current EVM client installed; the POST is answered by 202 and a task
  identifier, the first poll by a running job, every later one by the finished job.
\<close>

definition running_reply :: "nat \<Rightarrow> nat reply" where
  "running_reply p = Responds 200 (Some (Obj [(''status'', Str ''running''), (''progress'', Num p)]))"

definition completed_reply :: "nat reply" where
  "completed_reply =
     Responds 200 (Some (Obj [(''status'', Str ''completed''),
       (''result'', Obj [(''generation'', Obj [(''video'', Str ''https://x/video.mp4'')])])]))"

definition failed_reply :: "nat reply" where
  "failed_reply =
     Responds 200 (Some (Obj [(''status'', Str ''failed''), (''error'', Str ''content policy'')]))"

definition sunset_inputs :: "nat inputs" where
  "sunset_inputs =
     \<lparr> argv = [''node'', ''x402-generate.mjs'', ''A sunset over mountains'', ''xai-grok-imagine'', ''8''],
       env_agent_id = None,
       env_evm_key = Some ''0x1'',
       env_solana_key = None,
       dexter_ok = False,
       x402_ok = True,
       legacy_ok = False,
       create_reply = Responds 202 (Some (Obj [(''taskId'', Str ''task-1'')])),
       status_reply = (\<lambda>i. if i = 0 then running_reply 40 else completed_reply),
       elapsed_at = (\<lambda>i. decimal (5 * Suc i)) \<rparr>"

text \<open>The same invocation against a job that never leaves \<open>running\<close>, and one that fails.\<close>

definition stuck_inputs :: "nat inputs" where
  "stuck_inputs = sunset_inputs \<lparr> status_reply := (\<lambda>i. running_reply 10) \<rparr>"

definition failing_inputs :: "nat inputs" where
  "failing_inputs =
     sunset_inputs \<lparr> status_reply := (\<lambda>i. if i = 0 then running_reply 40 else failed_reply) \<rparr>"

text \<open>A reference of 88 base-58 characters, the length of a Solana signature.\<close>

definition sample_signature :: string where
  "sample_signature = replicate 88 CHR ''5''"

definition empty_body_inputs :: "nat inputs" where
  "empty_body_inputs = sunset_inputs \<lparr> create_reply := Responds 202 (Some (Obj [])) \<rparr>"

definition paid_body :: "nat js" where
  "paid_body = Obj [(''taskId'', Str ''task-1''), (''txHash'', Str ''0xabc''),
                    (''explorer'', Str ''https://example.org/tx/0xabc'')]"

definition image_request :: "nat request" where
  "image_request =
     \<lparr> prompt = ''A cat surfing'', model = ''sora-2'', duration = 8, agentId = None,
       aspectRatio = ''16:9'', imageData = Some ''https://x/cat.png'' \<rparr>"

text \<open>A status the client does not know, and a finished job with no result payload.\<close>

definition rendering_status :: "nat js" where
  "rendering_status = Obj [(''status'', Str ''rendering''), (''metadata'', Obj [(''percent'', Num 75)])]"

definition bare_completed :: "nat js" where
  "bare_completed = Obj [(''status'', Str ''completed'')]"

definition rendering_inputs :: "nat inputs" where
  "rendering_inputs =
     sunset_inputs \<lparr> status_reply := (\<lambda>i. Responds 200 (Some rendering_status)),
                     elapsed_at := (\<lambda>i. ''5'') \<rparr>"

section \<open>Facts about the building blocks\<close>

lemma includes_str_sublist: "includes_str s n = sublist n s"
  by (induction s) (auto simp: sublist_Cons_right)

lemma base58_alphabet:
  "base58_char c = (c \<in> set ''123456789ABCDEFGHJKLMNPQRSTUVWXYZabcdefghijkmnopqrstuvwxyz'')"
  unfolding base58_char_def in_range_def
  by (cases c) (simp; presburger)

lemma renders_iff: "renders E v = (\<exists>s. to_string E v = Inr s)"
  by (cases "to_string E v") (auto simp: renders_def)

text \<open>
  Why the statements about printed lines ask that the interpolated values have a text:
  a decoded object that has an own \<open>toString\<close> property has none, and a template
  literal that interpolates it throws. Strings, numbers, booleans, \<open>null\<close> and absent
  fields always have one.
\<close>

lemma primitive_renders:
  "renders E Undefined" "renders E Null" "renders E (Bool b)" "renders E (Num n)" "renders E (Str s)"
  by (simp_all add: renders_def)

lemma own_toString_has_no_text: "to_string E (Obj ((''toString'', v) # kvs)) = Inl TypeError"
  by simp

lemma print_value_ok:
  "to_string E v = Inr s \<Longrightarrow> print_value E line v w = Inr (emit (line s) w)"
  by (simp add: print_value_def and_then_def eval_in_def)

lemma explorer_of_renders:
  assumes "renders E ex" "renders E tx"
  shows "\<exists>x s. explorer_of E net ex tx = Inr x \<and> to_string E x = Inr s"
  using assms by (auto simp: explorer_of_def renders_iff)

lemma report_completed_ok:
  assumes "to_string E taskId = Inr tid" "printable_report E status"
    and "to_string E (get_opt (get_opt (lookup status ''result'') ''generation'') ''video'') = Inr v"
  shows "\<exists>w'. report_completed E net taskId elapsed status w = Inl (Exited 0, w') \<and>
           posted w' = posted w \<and> polled w' = polled w \<and> sleeps w' = sleeps w \<and>
           (\<exists>rest. out w' = out w @ [Complete elapsed, VideoLine v] @ rest)"
proof -
  let ?gen = "get_opt (lookup status ''result'') ''generation''"
  obtain th gi where th: "to_string E (get_opt ?gen ''image'') = Inr th"
    and gi: "to_string E (get_opt ?gen ''gif'') = Inr gi"
    using assms(2) by (auto simp: printable_report_def renders_iff Let_def)
  obtain x xs
    where x: "explorer_of E net (lookup status ''explorer'') (lookup status ''txHash'') = Inr x"
      and xs: "to_string E x = Inr xs"
    using assms(2)
      explorer_of_renders [of E "lookup status ''explorer''" "lookup status ''txHash''" net]
    by (auto simp: printable_report_def Let_def)
  show ?thesis
    using assms(1,3) th gi x xs
    by (simp add: report_completed_def Let_def print_value_ok and_then_def eval_in_def emit_def)
qed

lemma poll_once_in_progress:
  assumes "in_progress E rep" "to_string E taskId = Inr tid"
  shows "\<exists>w'. poll_once E net taskId pol rep elapsed w = Inr w' \<and>
           posted w' = posted w \<and>
           polled w' = polled w @ [API_BASE @ ''/generation/'' @ tid @ ''/status''] \<and>
           sleeps w' = sleeps w @ [pollIntervalMs pol] \<and>
           (\<exists>s p. out w' = out w @ [Progress s p elapsed])"
  using assms
  by (auto simp: in_progress_def poll_once_def and_then_def eval_in_def emit_def Let_def
        renders_iff split: reply.splits option.splits sum.splits)

text \<open>
  \<open>k\<close> replies in a row that the loop falls through on take it from iteration \<open>i\<close> to
  iteration \<open>i + k\<close>, with \<open>k\<close> waits, \<open>k\<close> GETs and nothing taken back from the output.
\<close>

lemma poll_loop_in_progress:
  assumes "to_string E taskId = Inr tid"
    and "\<forall>j. i \<le> j \<and> j < i + k \<longrightarrow> in_progress E (status_reply inp j)"
    and "i + k \<le> maxPolls pol"
  shows "\<exists>w'. poll_loop E inp net taskId pol i w = poll_loop E inp net taskId pol (i + k) w' \<and>
           posted w' = posted w \<and>
           polled w' = polled w @ replicate k (API_BASE @ ''/generation/'' @ tid @ ''/status'') \<and>
           sleeps w' = sleeps w @ replicate k (pollIntervalMs pol) \<and>
           prefix (out w) (out w')"
  using assms(2,3)
proof (induction k arbitrary: i w)
  case 0
  then show ?case by auto
next
  case (Suc k)
  have ip: "in_progress E (status_reply inp i)" using Suc.prems(1) by auto
  obtain w1 where w1: "poll_once E net taskId pol (status_reply inp i) (elapsed_at inp i) w = Inr w1"
    and p1: "posted w1 = posted w"
    and q1: "polled w1 = polled w @ [API_BASE @ ''/generation/'' @ tid @ ''/status'']"
    and s1: "sleeps w1 = sleeps w @ [pollIntervalMs pol]"
    and o1: "prefix (out w) (out w1)"
    using poll_once_in_progress [OF ip assms(1), of net pol "elapsed_at inp i" w] by auto
  have step: "poll_loop E inp net taskId pol i w = poll_loop E inp net taskId pol (Suc i) w1"
    using Suc.prems(2) w1 by (subst poll_loop.simps) simp
  have "\<forall>j. Suc i \<le> j \<and> j < Suc i + k \<longrightarrow> in_progress E (status_reply inp j)"
    using Suc.prems(1) by auto
  moreover have "Suc i + k \<le> maxPolls pol" using Suc.prems(2) by simp
  ultimately obtain w' where
    "poll_loop E inp net taskId pol (Suc i) w1 = poll_loop E inp net taskId pol (Suc i + k) w'"
    "posted w' = posted w1"
    "polled w' = polled w1 @ replicate k (API_BASE @ ''/generation/'' @ tid @ ''/status'')"
    "sleeps w' = sleeps w1 @ replicate k (pollIntervalMs pol)"
    "prefix (out w1) (out w')"
    using Suc.IH [of "Suc i" w1] by blast
  then show ?case
    using step p1 q1 s1 o1 by (auto simp: replicate_append_same intro: prefix_order.trans)
qed

lemma same_io_emit [simp]: "same_io w (emit e w') = same_io w w'"
  by (simp add: same_io_def emit_def)

lemma same_io_refl [simp]: "same_io w w"
  by (simp add: same_io_def)

lemma report_completed_io: "same_io w (world_of (report_completed E net taskId elapsed status w))"
  by (auto simp: report_completed_def Let_def and_then_def eval_in_def world_of_def print_value_def split: sum.splits)

lemma poll_once_io:
  "posted (world_of (poll_once E net taskId pol rep elapsed w)) = posted w \<and>
   sleeps (world_of (poll_once E net taskId pol rep elapsed w)) = sleeps w @ [pollIntervalMs pol] \<and>
   length (polled (world_of (poll_once E net taskId pol rep elapsed w))) \<le> Suc (length (polled w))"
proof (cases "to_string E taskId")
  case (Inl e)
  then show ?thesis by (simp add: poll_once_def Let_def and_then_def eval_in_def world_of_def)
next
  case (Inr tid)
  let ?w2 = "w\<lparr> sleeps := sleeps w @ [pollIntervalMs pol],
                polled := polled w @ [API_BASE @ ''/generation/'' @ tid @ ''/status''] \<rparr>"
  show ?thesis
  proof (cases rep)
    case Rejects
    with Inr show ?thesis by (simp add: poll_once_def Let_def and_then_def eval_in_def world_of_def)
  next
    case (Responds st b)
    show ?thesis
    proof (cases b)
      case None
      with Inr Responds show ?thesis
        by (simp add: poll_once_def Let_def and_then_def eval_in_def world_of_def)
    next
      case (Some status)
      have "same_io ?w2 (world_of (report_completed E net taskId elapsed status ?w2))"
        by (rule report_completed_io)
      then show ?thesis
        using Inr Responds Some
        by (auto simp: poll_once_def Let_def and_then_def eval_in_def world_of_def same_io_def
            print_value_def emit_def split: sum.splits)
    qed
  qed
qed

lemma poll_loop_io:
  "posted (snd (poll_loop E inp net taskId pol i w)) = posted w \<and>
   (\<exists>n. n \<le> maxPolls pol - i \<and>
        sleeps (snd (poll_loop E inp net taskId pol i w)) = sleeps w @ replicate n (pollIntervalMs pol) \<and>
        length (polled (snd (poll_loop E inp net taskId pol i w))) \<le> length (polled w) + n)"
proof (induction E inp net taskId pol i w rule: poll_loop.induct)
  case (1 E inp net taskId pol i w)
  show ?case
  proof (cases "i < maxPolls pol")
    case False
    then show ?thesis by (subst (1 2 3) poll_loop.simps) (simp add: emit_def)
  next
    case True
    note io = poll_once_io [of E net taskId pol "status_reply inp i" "elapsed_at inp i" w]
    show ?thesis
    proof (cases "poll_once E net taskId pol (status_reply inp i) (elapsed_at inp i) w")
      case (Inl t)
      then have "poll_loop E inp net taskId pol i w = t"
        using True by (subst poll_loop.simps) simp
      moreover have "snd t = world_of (poll_once E net taskId pol (status_reply inp i) (elapsed_at inp i) w)"
        using Inl by (cases t) (simp add: world_of_def)
      ultimately show ?thesis
        using io True by (intro conjI exI [of _ 1]) auto
    next
      case (Inr w')
      then have eq: "poll_loop E inp net taskId pol i w = poll_loop E inp net taskId pol (Suc i) w'"
        using True by (subst poll_loop.simps) simp
      have w': "w' = world_of (poll_once E net taskId pol (status_reply inp i) (elapsed_at inp i) w)"
        using Inr by (simp add: world_of_def)
      from "1.IH" [OF True Inr] obtain n where n: "n \<le> maxPolls pol - Suc i"
        "posted (snd (poll_loop E inp net taskId pol (Suc i) w')) = posted w'"
        "sleeps (snd (poll_loop E inp net taskId pol (Suc i) w')) = sleeps w' @ replicate n (pollIntervalMs pol)"
        "length (polled (snd (poll_loop E inp net taskId pol (Suc i) w'))) \<le> length (polled w') + n"
        by blast
      show ?thesis
        unfolding eq using n io True w'
        by (intro conjI exI [of _ "Suc n"]) (auto simp: replicate_append_same)
    qed
  qed
qed

lemma poll_once_completed:
  assumes "to_string E taskId = Inr tid"
    and "lookup status ''status'' = Str ''completed''"
    and "printable_report E status"
    and "to_string E (get_opt (get_opt (lookup status ''result'') ''generation'') ''video'') = Inr v"
  shows "\<exists>w'. poll_once E net taskId pol (Responds st (Some status)) elapsed w = Inl (Exited 0, w') \<and>
           posted w' = posted w \<and>
           polled w' = polled w @ [API_BASE @ ''/generation/'' @ tid @ ''/status''] \<and>
           sleeps w' = sleeps w @ [pollIntervalMs pol] \<and>
           (\<exists>rest. out w' = out w @ [Complete elapsed, VideoLine v] @ rest)"
proof -
  let ?w2 = "w\<lparr> sleeps := sleeps w @ [pollIntervalMs pol],
                polled := polled w @ [API_BASE @ ''/generation/'' @ tid @ ''/status''] \<rparr>"
  have nn: "\<not> nullish status" using assms(2) by (cases status) auto
  have step: "poll_once E net taskId pol (Responds st (Some status)) elapsed w =
        report_completed E net taskId elapsed status ?w2"
    using assms(1,2) nn
    by (simp add: poll_once_def Let_def and_then_def eval_in_def percent_of_def get_def)
  from report_completed_ok [OF assms(1,3,4), of net elapsed ?w2]
  show ?thesis unfolding step by auto
qed


lemma poll_loop_timeout:
  "\<not> i < maxPolls pol \<Longrightarrow>
   poll_loop E inp net taskId pol i w = (Exited 1, emit (TimedOut (timeoutLabel pol)) w)"
  by (subst poll_loop.simps) simp

lemma poll_loop_ends:
  "i < maxPolls pol \<Longrightarrow>
   poll_once E net taskId pol (status_reply inp i) (elapsed_at inp i) w = Inl t \<Longrightarrow>
   poll_loop E inp net taskId pol i w = t"
  by (subst poll_loop.simps) simp

lemma poll_loop_continues:
  "i < maxPolls pol \<Longrightarrow>
   poll_once E net taskId pol (status_reply inp i) (elapsed_at inp i) w = Inr w' \<Longrightarrow>
   poll_loop E inp net taskId pol i w = poll_loop E inp net taskId pol (Suc i) w'"
  by (subst poll_loop.simps) simp

lemma maxPolls_policy: "maxPolls (polling_policy m) = 120"
  by (simp add: polling_policy_def)

lemmas sample_defs =
  sunset_inputs_def stuck_inputs_def failing_inputs_def running_reply_def completed_reply_def
  failed_reply_def nat_engine_def

lemma in_progress_running: "in_progress nat_engine (running_reply p)"
  by (simp add: running_reply_def in_progress_def renders_def percent_of_def get_def get_opt_def
      js_or_def nat_engine_def)

text \<open>The whole script on the sample invocation, evaluated.\<close>

lemma sunset_run:
  "run nat_engine sunset_inputs =
     (Exited 0,
      \<lparr> posted = [(''https://api.clawdvine.sh/generation/create'',
           Obj [(''prompt'', Str ''A sunset over mountains''), (''videoModel'', Str ''xai-grok-imagine''),
                (''duration'', Num 8), (''aspectRatio'', Str ''9:16'')])],
        polled = [''https://api.clawdvine.sh/generation/task-1/status'',
                  ''https://api.clawdvine.sh/generation/task-1/status''],
        sleeps = [5000, 5000],
        out = [PaymentClient ''Base USDC (via x402)'', Generating,
               PromptLine ''A sunset over mountains'', ModelLine ''xai-grok-imagine'',
               DurationLine ''8'', BlankLine, Queued ''task-1'', Polling,
               Progress ''running'' ''40'' ''5'', Complete ''10'',
               VideoLine ''https://x/video.mp4'',
               ShareLine ''https://clawdvine.sh/media/task-1''] \<rparr>)"
  by (simp add: run_def sample_defs arg_def setup_payment_def emit_def world0_def request_of_def
      or_default_def or_else_def header_def submit_def submission_rejected_def get_def
      request_body_def and_then_def eval_in_def announce_def print_value_def polling_def
      polling_policy_def isSlowModel_def SLOW_MODELS_def poll_loop.simps poll_once_def
      percent_of_def get_opt_def js_or_def report_completed_def API_BASE_def
      decimal.simps digit_char_def in_range_def Let_def)

lemma same_io_trans: "same_io a b \<Longrightarrow> same_io b c \<Longrightarrow> same_io a c"
  by (simp add: same_io_def)

lemma setup_payment_io:
  "setup_payment inp w = Inr (net, w1) \<Longrightarrow> same_io w w1 \<and> (net = ''solana'' \<or> net = ''base'')"
  "setup_payment inp w = Inl (oc, w1) \<Longrightarrow> same_io w w1 \<and> oc = Exited 1"
  by (auto simp: setup_payment_def Let_def split: if_splits option.splits)

lemma header_io: "same_io w (header E r w)"
  by (simp add: header_def Let_def)

lemma announce_io: "same_io w (world_of (announce E net body w))"
  by (auto simp: announce_def and_then_def eval_in_def world_of_def print_value_def
      split: sum.splits)

lemma polling_posted: "posted (snd (polling E inp net m body w)) = posted w"
  using poll_loop_io [of E inp net _ "polling_policy m" 0]
  by (auto simp: polling_def Let_def eval_in_def emit_def split: sum.splits)

text \<open>What the submission does, case by case.\<close>

lemma submit_accepted:
  assumes "truthy E (lookup body ''taskId'')"
  shows "submit E r (Responds 202 (Some body)) w =
           Inr (body, w\<lparr> posted := posted w @ [(API_BASE @ ''/generation/create'', request_body r)] \<rparr>)"
proof -
  have "\<not> nullish body" using assms by (cases body) auto
  then show ?thesis
    using assms
    by (simp add: submit_def submission_rejected_def get_def and_then_def eval_in_def Let_def)
qed

lemma submit_refused:
  assumes "\<not> (\<exists>body. rep = Responds 202 (Some body) \<and> truthy E (lookup body ''taskId''))"
  shows "\<exists>oc w'. submit E r rep w = Inl (oc, w') \<and> exit_code oc = 1 \<and>
           posted w' = posted w @ [(API_BASE @ ''/generation/create'', request_body r)] \<and>
           polled w' = polled w \<and> sleeps w' = sleeps w"
proof (cases rep)
  case Rejects
  then show ?thesis by (simp add: submit_def Let_def)
next
  case (Responds st b)
  show ?thesis
  proof (cases b)
    case None
    with Responds show ?thesis by (simp add: submit_def Let_def)
  next
    case (Some body)
    show ?thesis
    proof (cases "st = 202")
      case False
      with Responds Some show ?thesis
        by (simp add: submit_def submission_rejected_def and_then_def eval_in_def emit_def Let_def)
    next
      case True
      with assms Responds Some have nt: "\<not> truthy E (lookup body ''taskId'')" by simp
      show ?thesis
        using Responds Some True nt
        by (cases "nullish body")
          (simp_all add: submit_def submission_rejected_def get_def and_then_def eval_in_def
            emit_def Let_def)
    qed
  qed
qed

lemma run_posted:
  "posted (snd (run E inp)) =
     (if is_set (arg inp 2) \<and> (\<exists>net w1. setup_payment inp world0 = Inr (net, w1))
      then [(API_BASE @ ''/generation/create'', request_body (request_of E inp (the (arg inp 2))))]
      else [])"
proof (cases "is_set (arg inp 2)")
  case False
  then show ?thesis by (simp add: run_def emit_def world0_def)
next
  case prompt: True
  show ?thesis
  proof (cases "setup_payment inp world0")
    case (Inl t)
    obtain oc w1 where t: "t = (oc, w1)" by (cases t)
    have "same_io world0 w1" using setup_payment_io(2) Inl t by blast
    then have "posted w1 = []" by (simp add: same_io_def world0_def)
    then show ?thesis using prompt Inl t by (simp add: run_def emit_def world0_def)
  next
    case (Inr a)
    obtain net w1 where a: "a = (net, w1)" by (cases a)
    have keys: "\<not> (\<not> is_set (env_evm_key inp) \<and> \<not> is_set (env_solana_key inp))"
      using Inr by (auto simp: setup_payment_def Let_def split: if_splits)
    have p1: "posted w1 = []"
      using setup_payment_io(1) [of inp world0 net w1] Inr a by (simp add: same_io_def world0_def)
    let ?r = "request_of E inp (the (arg inp 2))"
    have ph: "posted (header E ?r w1) = []"
      using header_io [of w1 E ?r] p1 by (simp add: same_io_def)
    show ?thesis
    proof (cases "\<exists>body. create_reply inp = Responds 202 (Some body) \<and> truthy E (lookup body ''taskId'')")
      case False
      from submit_refused [OF False, of ?r "header E ?r w1"] ph
      show ?thesis using prompt keys Inr a by (auto simp: run_def Let_def)
    next
      case True
      then obtain body where b: "create_reply inp = Responds 202 (Some body)"
        "truthy E (lookup body ''taskId'')" by blast
      let ?w2 = "header E ?r w1\<lparr> posted := posted (header E ?r w1) @
                   [(API_BASE @ ''/generation/create'', request_body ?r)] \<rparr>"
      have s: "submit E ?r (create_reply inp) (header E ?r w1) = Inr (body, ?w2)"
        using submit_accepted [OF b(2)] b(1) by simp
      have an: "posted (world_of (announce E net body ?w2)) = posted ?w2"
        using announce_io [of ?w2 E net body] by (simp add: same_io_def)
      show ?thesis
        using prompt keys Inr a s an ph polling_posted [of E inp net "model ?r" body]
        by (auto simp: run_def Let_def world_of_def split: sum.splits prod.splits)
    qed
  qed
qed


lemma run_refused:
  assumes "is_set (arg inp 2)" "setup_payment inp world0 = Inr (net, w1)"
    and "\<not> (\<exists>body. create_reply inp = Responds 202 (Some body) \<and> truthy E (lookup body ''taskId''))"
  shows "exit_code (fst (run E inp)) = 1 \<and> polled (snd (run E inp)) = [] \<and> sleeps (snd (run E inp)) = []"
proof -
  have keys: "\<not> (\<not> is_set (env_evm_key inp) \<and> \<not> is_set (env_solana_key inp))"
    using assms(2) by (auto simp: setup_payment_def Let_def split: if_splits)
  let ?r = "request_of E inp (the (arg inp 2))"
  have io: "same_io world0 (header E ?r w1)"
    using setup_payment_io(1) [OF assms(2)] header_io [of w1 E ?r] by (blast intro: same_io_trans)
  from submit_refused [OF assms(3), of ?r "header E ?r w1"] io
  show ?thesis
    using assms(1,2) keys by (auto simp: run_def Let_def same_io_def world0_def)
qed

lemma announce_with_explorer:
  assumes "truthy E (lookup body ''txHash'')" "lookup body ''explorer'' = Str e" "e \<noteq> []"
    and "to_string E (lookup body ''taskId'') = Inr tid"
  shows "announce E net body w = Inr (w\<lparr> out := out w @ [Queued tid, PaymentLine e, Polling] \<rparr>)"
proof -
  have "\<not> nullish body" using assms(2) by (cases body) auto
  then show ?thesis
    using assms
    by (simp add: announce_def get_def and_then_def eval_in_def print_value_def emit_def
        explorer_of_def)
qed

lemma report_completed_with_explorer:
  assumes "truthy E (lookup status ''txHash'')" "lookup status ''explorer'' = Str e" "e \<noteq> []"
    and "to_string E taskId = Inr tid" "printable_report E status"
  shows "\<exists>w'. report_completed E net taskId elapsed status w = Inl (Exited 0, w') \<and>
           last (out w') = TxLine e"
proof -
  let ?gen = "get_opt (lookup status ''result'') ''generation''"
  obtain v th gi where "to_string E (get_opt ?gen ''video'') = Inr v"
    "to_string E (get_opt ?gen ''image'') = Inr th"
    "to_string E (get_opt ?gen ''gif'') = Inr gi"
    using assms(5) by (auto simp: printable_report_def renders_iff Let_def)
  then show ?thesis
    using assms(1-4)
    by (simp add: report_completed_def Let_def print_value_ok and_then_def eval_in_def emit_def
        explorer_of_def)
qed

lemma request_of_optional:
  "agentId (request_of E inp p) =
     (if is_set (arg inp 5) then arg inp 5
      else if is_set (env_agent_id inp) then env_agent_id inp else None)"
  "imageData (request_of E inp p) = (if is_set (arg inp 7) then arg inp 7 else None)"
  by (simp_all add: request_of_def or_else_def)

lemma polling_sleeps:
  "\<exists>n\<le>120. sleeps (snd (polling E inp net m body w)) =
      sleeps w @ replicate n (pollIntervalMs (polling_policy m))"
proof (cases "get body ''taskId''")
  case (Inl e)
  then show ?thesis by (intro exI [of _ 0]) (simp add: polling_def eval_in_def Let_def)
next
  case (Inr taskId)
  let ?w = "if isSlowModel m
            then emit (KlingNotice (pollIntervalMs (polling_policy m) div 1000)
                   (timeoutLabel (polling_policy m))) w
            else w"
  have mp: "maxPolls (polling_policy m) = 120" by (simp add: polling_policy_def)
  have sw: "sleeps ?w = sleeps w" by (simp add: emit_def)
  from poll_loop_io [of E inp net taskId "polling_policy m" 0 ?w]
  obtain n where "n \<le> 120"
    "sleeps (snd (poll_loop E inp net taskId (polling_policy m) 0 ?w)) =
       sleeps w @ replicate n (pollIntervalMs (polling_policy m))"
    unfolding mp sw by auto
  then show ?thesis using Inr by (auto simp: polling_def eval_in_def Let_def)
qed

text \<open>The iteration on a finished job with no result payload, evaluated.\<close>

lemma bare_completed_poll:
  "poll_once nat_engine ''base'' (Str ''task-1'') (polling_policy ''sora-2'')
     (Responds 200 (Some bare_completed)) ''5'' world0 =
   Inl (Exited 0,
        \<lparr> posted = [], polled = [''https://api.clawdvine.sh/generation/task-1/status''],
          sleeps = [5000],
          out = [Complete ''5'', VideoLine ''undefined'',
                 ShareLine ''https://clawdvine.sh/media/task-1''] \<rparr>)"
  by (simp add: bare_completed_def poll_once_def report_completed_def percent_of_def get_def
      get_opt_def js_or_def and_then_def eval_in_def print_value_def emit_def world0_def
      polling_policy_def isSlowModel_def SLOW_MODELS_def API_BASE_def Let_def nat_engine_def)

lemma run_accepted:
  assumes "is_set (arg inp 2)" "setup_payment inp world0 = Inr (net, w1)"
    and "create_reply inp = Responds 202 (Some body)" "truthy E (lookup body ''taskId'')"
  shows "run E inp =
     (case announce E net body
             (header E (request_of E inp (the (arg inp 2))) w1
                \<lparr> posted := [(API_BASE @ ''/generation/create'',
                               request_body (request_of E inp (the (arg inp 2))))] \<rparr>) of
        Inl t \<Rightarrow> t
      | Inr w3 \<Rightarrow> polling E inp net (model (request_of E inp (the (arg inp 2)))) body w3)"
proof -
  have keys: "\<not> (\<not> is_set (env_evm_key inp) \<and> \<not> is_set (env_solana_key inp))"
    using assms(2) by (auto simp: setup_payment_def Let_def split: if_splits)
  let ?r = "request_of E inp (the (arg inp 2))"
  have "posted (header E ?r w1) = []"
    using setup_payment_io(1) [OF assms(2)] header_io [of w1 E ?r]
    by (simp add: same_io_def world0_def)
  then show ?thesis
    using assms(1,2,3) keys submit_accepted [OF assms(4), of ?r "header E ?r w1"]
    by (auto simp: run_def Let_def)
qed

lemma report_completed_out:
  "prefix (out w) (out (world_of (report_completed E net taskId elapsed status w)))"
  by (auto simp: report_completed_def Let_def and_then_def eval_in_def world_of_def
      print_value_def emit_def split: sum.splits)

text \<open>One iteration only ever adds to the output, and makes its GET once the URL has a text.\<close>

lemma poll_once_grows:
  "prefix (out w) (out (world_of (poll_once E net taskId pol rep elapsed w)))"
proof (cases "to_string E taskId")
  case (Inl e)
  then show ?thesis by (simp add: poll_once_def Let_def and_then_def eval_in_def world_of_def)
next
  case (Inr tid)
  let ?w2 = "w\<lparr> sleeps := sleeps w @ [pollIntervalMs pol],
                polled := polled w @ [API_BASE @ ''/generation/'' @ tid @ ''/status''] \<rparr>"
  show ?thesis
  proof (cases rep)
    case Rejects
    with Inr show ?thesis by (simp add: poll_once_def Let_def and_then_def eval_in_def world_of_def)
  next
    case (Responds st b)
    show ?thesis
    proof (cases b)
      case None
      with Inr Responds show ?thesis
        by (simp add: poll_once_def Let_def and_then_def eval_in_def world_of_def)
    next
      case (Some status)
      have "prefix (out ?w2) (out (world_of (report_completed E net taskId elapsed status ?w2)))"
        by (rule report_completed_out)
      then show ?thesis
        using Inr Responds Some
        by (auto simp: poll_once_def Let_def and_then_def eval_in_def world_of_def
            print_value_def emit_def split: sum.splits)
    qed
  qed
qed

lemma poll_once_polled:
  assumes "to_string E taskId = Inr tid"
  shows "polled (world_of (poll_once E net taskId pol rep elapsed w)) =
           polled w @ [API_BASE @ ''/generation/'' @ tid @ ''/status'']"
proof -
  let ?w2 = "w\<lparr> sleeps := sleeps w @ [pollIntervalMs pol],
                polled := polled w @ [API_BASE @ ''/generation/'' @ tid @ ''/status''] \<rparr>"
  show ?thesis
  proof (cases rep)
    case Rejects
    with assms show ?thesis
      by (simp add: poll_once_def Let_def and_then_def eval_in_def world_of_def)
  next
    case (Responds st b)
    show ?thesis
    proof (cases b)
      case None
      with assms Responds show ?thesis
        by (simp add: poll_once_def Let_def and_then_def eval_in_def world_of_def)
    next
      case (Some status)
      have "same_io ?w2 (world_of (report_completed E net taskId elapsed status ?w2))"
        by (rule report_completed_io)
      then show ?thesis
        using assms Responds Some
        by (auto simp: poll_once_def Let_def and_then_def eval_in_def world_of_def same_io_def
            print_value_def emit_def split: sum.splits)
    qed
  qed
qed

text \<open>The loop never takes anything back: what was printed, requested and waited stays.\<close>

lemma poll_loop_grows:
  "prefix (out w) (out (snd (poll_loop E inp net taskId pol i w))) \<and>
   prefix (polled w) (polled (snd (poll_loop E inp net taskId pol i w))) \<and>
   prefix (sleeps w) (sleeps (snd (poll_loop E inp net taskId pol i w)))"
proof (induction E inp net taskId pol i w rule: poll_loop.induct)
  case (1 E inp net taskId pol i w)
  show ?case
  proof (cases "i < maxPolls pol")
    case False
    then show ?thesis by (subst (1 2 3) poll_loop.simps) (simp add: emit_def)
  next
    case True
    let ?r = "poll_once E net taskId pol (status_reply inp i) (elapsed_at inp i) w"
    have o: "prefix (out w) (out (world_of ?r))" by (rule poll_once_grows)
    have s: "prefix (sleeps w) (sleeps (world_of ?r))"
      using poll_once_io [of E net taskId pol "status_reply inp i" "elapsed_at inp i" w] by simp
    have q: "prefix (polled w) (polled (world_of ?r))"
    proof (cases "to_string E taskId")
      case (Inl e)
      then show ?thesis by (simp add: poll_once_def Let_def and_then_def eval_in_def world_of_def)
    next
      case (Inr tid)
      then show ?thesis by (simp add: poll_once_polled)
    qed
    show ?thesis
    proof (cases ?r)
      case (Inl t)
      then have "poll_loop E inp net taskId pol i w = t"
        using True by (subst poll_loop.simps) simp
      moreover have "snd t = world_of ?r" using Inl by (cases t) (simp add: world_of_def)
      ultimately show ?thesis using o s q by simp
    next
      case (Inr w')
      then have eq: "poll_loop E inp net taskId pol i w = poll_loop E inp net taskId pol (Suc i) w'"
        using True by (subst poll_loop.simps) simp
      have w': "w' = world_of ?r" using Inr by (simp add: world_of_def)
      show ?thesis
        unfolding eq using "1.IH" [OF True Inr] o s q w'
        by (auto intro: prefix_order.trans)
    qed
  qed
qed

text \<open>An iteration within the budget makes its wait and its GET, however the loop ends.\<close>

lemma poll_loop_next:
  assumes "to_string E taskId = Inr tid" "i < maxPolls pol"
  shows "prefix (sleeps w @ [pollIntervalMs pol]) (sleeps (snd (poll_loop E inp net taskId pol i w))) \<and>
         prefix (polled w @ [API_BASE @ ''/generation/'' @ tid @ ''/status''])
           (polled (snd (poll_loop E inp net taskId pol i w)))"
proof -
  let ?r = "poll_once E net taskId pol (status_reply inp i) (elapsed_at inp i) w"
  have s: "sleeps (world_of ?r) = sleeps w @ [pollIntervalMs pol]"
    using poll_once_io [of E net taskId pol "status_reply inp i" "elapsed_at inp i" w] by simp
  have q: "polled (world_of ?r) = polled w @ [API_BASE @ ''/generation/'' @ tid @ ''/status'']"
    using assms(1) by (rule poll_once_polled)
  show ?thesis
  proof (cases ?r)
    case (Inl t)
    then have "poll_loop E inp net taskId pol i w = t"
      using assms(2) by (subst poll_loop.simps) simp
    moreover have "snd t = world_of ?r" using Inl by (cases t) (simp add: world_of_def)
    ultimately show ?thesis using s q by simp
  next
    case (Inr w')
    then have eq: "poll_loop E inp net taskId pol i w = poll_loop E inp net taskId pol (Suc i) w'"
      using assms(2) by (subst poll_loop.simps) simp
    have w': "w' = world_of ?r" using Inr by (simp add: world_of_def)
    show ?thesis
      unfolding eq using poll_loop_grows [of w' E inp net taskId pol "Suc i"] s q w' by simp
  qed
qed

section \<open>The claims\<close>



text \<open>
  Claim C5. The policy depends on the requested model alone and is computed before the
  loop starts: a model that starts with the listed token \<open>fal-kling-o3\<close> or contains
  \<open>kling\<close> gets 10000 ms, 120 attempts and the label \<open>20 minutes\<close>; every other model
  gets 5000 ms, 120 attempts and \<open>10 minutes\<close>. Every wait of the polling session lasts
  the interval of that one policy.
\<close>

theorem policy_selected_by_model:
  "isSlowModel m = (prefix ''fal-kling-o3'' m \<or> includes_str m ''kling'') \<and>
   polling_policy m =
     (if isSlowModel m
      then \<lparr> pollIntervalMs = 10000, maxPolls = 120, timeoutLabel = ''20 minutes'' \<rparr>
      else \<lparr> pollIntervalMs = 5000, maxPolls = 120, timeoutLabel = ''10 minutes'' \<rparr>) \<and>
   (\<exists>n\<le>120. sleeps (snd (polling E inp net m body w)) =
      sleeps w @ replicate n (pollIntervalMs (polling_policy m)))"
  using polling_sleeps [of E inp net m body w]
  by (simp add: isSlowModel_def SLOW_MODELS_def polling_policy_def)

theorem policy_selected_by_model_witness:
  "isSlowModel ''fal-kling-o3'' \<and>
   polling_policy ''fal-kling-o3'' =
      \<lparr> pollIntervalMs = 10000, maxPolls = 120, timeoutLabel = ''20 minutes'' \<rparr> \<and>
   \<not> isSlowModel ''sora-2'' \<and>
   polling_policy ''sora-2'' =
      \<lparr> pollIntervalMs = 5000, maxPolls = 120, timeoutLabel = ''10 minutes'' \<rparr>"
  using policy_selected_by_model [of "''fal-kling-o3''" nat_engine sunset_inputs "''base''" Null world0]
    policy_selected_by_model [of "''sora-2''" nat_engine sunset_inputs "''base''" Null world0]
  by simp

text \<open>
  Claim C6. The derived explorer link is a function of the payment network and the
  reference text: on \<open>solana\<close> it is always the Solscan link; on \<open>base\<close> it is the
  Basescan link unless the reference consists of 80 to 90 base-58 characters, in which
  case the Solscan link wins. With no \<open>explorer\<close> field in the response, this is the
  link the script prints.
\<close>

theorem explorer_derivation:
  "derived_explorer ''solana'' s = ''https://solscan.io/tx/'' @ s \<and>
   derived_explorer ''base'' s =
     (if signature_pattern s then ''https://solscan.io/tx/'' @ s else ''https://basescan.org/tx/'' @ s) \<and>
   signature_pattern s =
     (80 \<le> length s \<and> length s \<le> 90 \<and>
      set s \<subseteq> set ''123456789ABCDEFGHJKLMNPQRSTUVWXYZabcdefghijkmnopqrstuvwxyz'') \<and>
   (\<not> truthy E ex \<longrightarrow> explorer_of E net ex (Str s) = Inr (Str (derived_explorer net s)))"
proof -
  have "list_all base58_char s =
    (set s \<subseteq> set ''123456789ABCDEFGHJKLMNPQRSTUVWXYZabcdefghijkmnopqrstuvwxyz'')"
    unfolding list_all_iff base58_alphabet by blast
  then show ?thesis
    by (simp add: derived_explorer_def signature_pattern_def explorer_of_def)
qed

theorem explorer_derivation_witness:
  "derived_explorer ''solana'' ''0xabc'' = ''https://solscan.io/tx/0xabc'' \<and>
   \<not> signature_pattern ''0xabc'' \<and>
   derived_explorer ''base'' ''0xabc'' = ''https://basescan.org/tx/0xabc'' \<and>
   signature_pattern sample_signature \<and>
   derived_explorer ''base'' sample_signature = ''https://solscan.io/tx/'' @ sample_signature \<and>
   \<not> truthy nat_engine Undefined \<and>
   explorer_of nat_engine ''base'' Undefined (Str ''0xabc'') = Inr (Str ''https://basescan.org/tx/0xabc'')"
  using explorer_derivation [of "''0xabc''" nat_engine Undefined "''base''"]
    explorer_derivation [of sample_signature nat_engine Undefined "''base''"]
  by (simp add: sample_signature_def)

text \<open>
  Claim C3. When each of the first 120 replies is one the loop falls through on
  (a status that is neither \<open>completed\<close> nor \<open>failed\<close>), the loop makes exactly 120
  waits and 120 status requests, then prints the timeout line with the label of the
  policy and exits with code 1.
\<close>

theorem timeout_after_all_attempts:
  assumes "to_string E taskId = Inr tid"
    and "\<forall>i<120. in_progress E (status_reply inp i)"
  shows "\<exists>w'. poll_loop E inp net taskId (polling_policy m) 0 w = (Exited 1, w') \<and>
           posted w' = posted w \<and>
           polled w' = polled w @ replicate 120 (API_BASE @ ''/generation/'' @ tid @ ''/status'') \<and>
           sleeps w' = sleeps w @ replicate 120 (pollIntervalMs (polling_policy m)) \<and>
           prefix (out w) (out w') \<and>
           last (out w') = TimedOut (timeoutLabel (polling_policy m))"
proof -
  have "\<forall>j. 0 \<le> j \<and> j < 0 + 120 \<longrightarrow> in_progress E (status_reply inp j)"
    using assms(2) by simp
  moreover have "0 + 120 \<le> maxPolls (polling_policy m)" by (simp add: maxPolls_policy)
  ultimately obtain w1 where
    w1: "poll_loop E inp net taskId (polling_policy m) 0 w =
         poll_loop E inp net taskId (polling_policy m) (0 + 120) w1"
    and io: "posted w1 = posted w"
      "polled w1 = polled w @ replicate 120 (API_BASE @ ''/generation/'' @ tid @ ''/status'')"
      "sleeps w1 = sleeps w @ replicate 120 (pollIntervalMs (polling_policy m))"
      "prefix (out w) (out w1)"
    using poll_loop_in_progress [OF assms(1), of 0 120 inp "polling_policy m" net w] by blast
  have "poll_loop E inp net taskId (polling_policy m) (0 + 120) w1 =
        (Exited 1, emit (TimedOut (timeoutLabel (polling_policy m))) w1)"
    by (rule poll_loop_timeout) (simp add: maxPolls_policy)
  then show ?thesis
    using w1 io by (auto simp: emit_def intro: prefix_order.trans)
qed

theorem timeout_after_all_attempts_witness:
  "to_string nat_engine (Str ''task-1'') = Inr ''task-1'' \<and>
   in_progress nat_engine (status_reply stuck_inputs 0) \<and>
   in_progress nat_engine (status_reply stuck_inputs 119) \<and>
   (\<exists>w'. poll_loop nat_engine stuck_inputs ''base'' (Str ''task-1'')
            (polling_policy ''xai-grok-imagine'') 0 world0 = (Exited 1, w') \<and>
         length (polled w') = 120 \<and>
         sleeps w' = replicate 120 5000 \<and>
         last (out w') = TimedOut ''10 minutes'')"
proof -
  have ip: "\<forall>i<120. in_progress nat_engine (status_reply stuck_inputs i)"
    by (simp add: stuck_inputs_def in_progress_running)
  have ts: "to_string nat_engine (Str ''task-1'') = Inr ''task-1''" by simp
  have np: "\<not> isSlowModel ''xai-grok-imagine''"
    by (simp add: isSlowModel_def SLOW_MODELS_def)
  show ?thesis
    using timeout_after_all_attempts [OF ts ip, of "''base''" "''xai-grok-imagine''" world0] ip np
    by (auto simp: world0_def polling_policy_def)
qed

text \<open>
  Claim C2. When poll number \<open>k\<close> (counted from 0, within the 120 attempts) is the first
  one that is not in progress and its status is \<open>completed\<close>, the loop ends on that
  iteration after exactly \<open>k + 1\<close> status requests, the process exits with code 0, and
  the video line carries the text of \<open>result.generation.video\<close>. The instance that
  follows is the scenario of one \<open>running\<close> reply and then the finished job: two polls
  and the video \<open>https://x/video.mp4\<close>.
\<close>

theorem first_completed_ends_polling:
  assumes "to_string E taskId = Inr tid"
    and "k < 120"
    and "\<forall>j<k. in_progress E (status_reply inp j)"
    and "status_reply inp k = Responds st (Some status)"
    and "lookup status ''status'' = Str ''completed''"
    and "printable_report E status"
    and "to_string E (get_opt (get_opt (lookup status ''result'') ''generation'') ''video'') = Inr v"
  shows "\<exists>w'. poll_loop E inp net taskId (polling_policy m) 0 w = (Exited 0, w') \<and>
           posted w' = posted w \<and>
           polled w' = polled w @ replicate (Suc k) (API_BASE @ ''/generation/'' @ tid @ ''/status'') \<and>
           sleeps w' = sleeps w @ replicate (Suc k) (pollIntervalMs (polling_policy m)) \<and>
           (\<exists>before rest. prefix (out w) before \<and>
              out w' = before @ [Complete (elapsed_at inp k), VideoLine v] @ rest)"
proof -
  have "\<forall>j. 0 \<le> j \<and> j < 0 + k \<longrightarrow> in_progress E (status_reply inp j)"
    using assms(3) by simp
  moreover have "0 + k \<le> maxPolls (polling_policy m)" using assms(2) by (simp add: maxPolls_policy)
  ultimately obtain w1 where
    w1: "poll_loop E inp net taskId (polling_policy m) 0 w =
         poll_loop E inp net taskId (polling_policy m) (0 + k) w1"
    and io: "posted w1 = posted w"
      "polled w1 = polled w @ replicate k (API_BASE @ ''/generation/'' @ tid @ ''/status'')"
      "sleeps w1 = sleeps w @ replicate k (pollIntervalMs (polling_policy m))"
      "prefix (out w) (out w1)"
    using poll_loop_in_progress [OF assms(1), of 0 k inp "polling_policy m" net w] by blast
  obtain w2 rest where
    w2: "poll_once E net taskId (polling_policy m) (status_reply inp k) (elapsed_at inp k) w1 =
           Inl (Exited 0, w2)"
    and io2: "posted w2 = posted w1"
      "polled w2 = polled w1 @ [API_BASE @ ''/generation/'' @ tid @ ''/status'']"
      "sleeps w2 = sleeps w1 @ [pollIntervalMs (polling_policy m)]"
      "out w2 = out w1 @ [Complete (elapsed_at inp k), VideoLine v] @ rest"
    using poll_once_completed [OF assms(1,5,6,7), of net "polling_policy m" st "elapsed_at inp k" w1]
    unfolding assms(4) by auto
  have "poll_loop E inp net taskId (polling_policy m) (0 + k) w1 = (Exited 0, w2)"
    using poll_loop_ends [OF _ w2] assms(2) by (simp add: maxPolls_policy)
  then show ?thesis
    using w1 io io2 by (auto simp: replicate_append_same)
qed


theorem first_completed_ends_polling_witness:
  "in_progress nat_engine (status_reply sunset_inputs 0) \<and>
   status_reply sunset_inputs 1 = completed_reply \<and>
   (\<exists>w'. poll_loop nat_engine sunset_inputs ''base'' (Str ''task-1'')
            (polling_policy ''xai-grok-imagine'') 0 world0 = (Exited 0, w') \<and>
         length (polled w') = 2 \<and>
         sleeps w' = [5000, 5000] \<and>
         (\<exists>before rest. out w' = before @ [Complete ''10'', VideoLine ''https://x/video.mp4''] @ rest))"
proof -
  let ?status = "Obj [(''status'', Str ''completed''),
       (''result'', Obj [(''generation'', Obj [(''video'', Str ''https://x/video.mp4'')])])]"
  have ts: "to_string nat_engine (Str ''task-1'') = Inr ''task-1''" by simp
  have k: "(1::nat) < 120" by simp
  have ip: "\<forall>j<1. in_progress nat_engine (status_reply sunset_inputs j)"
    by (simp add: sunset_inputs_def in_progress_running)
  have rep: "status_reply sunset_inputs 1 = Responds 200 (Some ?status)"
    by (simp add: sunset_inputs_def completed_reply_def)
  have st: "lookup ?status ''status'' = Str ''completed''" by simp
  have pr: "printable_report nat_engine ?status"
    by (simp add: printable_report_def renders_def get_opt_def)
  have v: "to_string nat_engine (get_opt (get_opt (lookup ?status ''result'') ''generation'') ''video'')
             = Inr ''https://x/video.mp4''"
    by (simp add: get_opt_def)
  have np: "\<not> isSlowModel ''xai-grok-imagine''"
    by (simp add: isSlowModel_def SLOW_MODELS_def)
  have el: "elapsed_at sunset_inputs 1 = ''10''"
    by (simp add: sunset_inputs_def decimal.simps digit_char_def)
  show ?thesis
    using first_completed_ends_polling [OF ts k ip rep st pr v, of "''base''" "''xai-grok-imagine''" world0]
      ip rep np el
    by (clarsimp simp: world0_def polling_policy_def completed_reply_def numeral_2_eq_2) blast
qed

text \<open>
  Claim C1. The submission goes on to polling exactly when the status is 202 and the
  decoded body has a truthy \<open>taskId\<close> (for a string: a non-empty one). Any other reply,
  a 202 with the body \<open>{}\<close> included, ends the process with exit code 1 before any
  status request. Either way \<open>fetchWithPayment\<close> has been called exactly once; a whole
  run calls it at most once, and exactly once when it gets as far as the submission,
  after which an accepted run is the announcement followed by the polling.
\<close>

theorem submission_accepted_iff:
  "(truthy E (lookup body ''taskId'') \<longrightarrow>
      submit E r (Responds 202 (Some body)) w =
        Inr (body, w\<lparr> posted := posted w @ [(API_BASE @ ''/generation/create'', request_body r)] \<rparr>)) \<and>
   (\<not> (\<exists>b. rep = Responds 202 (Some b) \<and> truthy E (lookup b ''taskId'')) \<longrightarrow>
      (\<exists>oc w'. submit E r rep w = Inl (oc, w') \<and> exit_code oc = 1 \<and>
         posted w' = posted w @ [(API_BASE @ ''/generation/create'', request_body r)] \<and>
         polled w' = polled w)) \<and>
   truthy E (lookup (Obj [(''taskId'', Str s)]) ''taskId'') = (s \<noteq> []) \<and>
   \<not> truthy E (lookup (Obj []) ''taskId'') \<and>
   length (posted (snd (run E inp))) \<le> 1 \<and>
   (is_set (arg inp 2) \<and> setup_payment inp world0 = Inr (net, w1) \<longrightarrow>
      length (posted (snd (run E inp))) = 1 \<and>
      (\<not> (\<exists>b. create_reply inp = Responds 202 (Some b) \<and> truthy E (lookup b ''taskId'')) \<longrightarrow>
         exit_code (fst (run E inp)) = 1 \<and> polled (snd (run E inp)) = []) \<and>
      (create_reply inp = Responds 202 (Some body) \<and> truthy E (lookup body ''taskId'') \<longrightarrow>
         run E inp =
           (case announce E net body
                   (header E (request_of E inp (the (arg inp 2))) w1
                      \<lparr> posted := [(API_BASE @ ''/generation/create'',
                                     request_body (request_of E inp (the (arg inp 2))))] \<rparr>) of
              Inl t \<Rightarrow> t
            | Inr w3 \<Rightarrow> polling E inp net (model (request_of E inp (the (arg inp 2)))) body w3)))"
proof (intro conjI impI)
  assume "truthy E (lookup body ''taskId'')"
  then show "submit E r (Responds 202 (Some body)) w =
        Inr (body, w\<lparr> posted := posted w @ [(API_BASE @ ''/generation/create'', request_body r)] \<rparr>)"
    by (rule submit_accepted)
next
  assume "\<not> (\<exists>b. rep = Responds 202 (Some b) \<and> truthy E (lookup b ''taskId''))"
  from submit_refused [OF this, of r w]
  show "\<exists>oc w'. submit E r rep w = Inl (oc, w') \<and> exit_code oc = 1 \<and>
         posted w' = posted w @ [(API_BASE @ ''/generation/create'', request_body r)] \<and>
         polled w' = polled w"
    by blast
next
  show "truthy E (lookup (Obj [(''taskId'', Str s)]) ''taskId'') = (s \<noteq> [])" by simp
next
  show "\<not> truthy E (lookup (Obj []) ''taskId'')" by simp
next
  show "length (posted (snd (run E inp))) \<le> 1" by (simp add: run_posted)
next
  assume "is_set (arg inp 2) \<and> setup_payment inp world0 = Inr (net, w1)"
  then show "length (posted (snd (run E inp))) = 1" by (simp add: run_posted)
next
  assume a: "is_set (arg inp 2) \<and> setup_payment inp world0 = Inr (net, w1)"
    and b: "\<not> (\<exists>b. create_reply inp = Responds 202 (Some b) \<and> truthy E (lookup b ''taskId''))"
  from run_refused [OF _ _ b] a
  show "exit_code (fst (run E inp)) = 1" by blast
next
  assume a: "is_set (arg inp 2) \<and> setup_payment inp world0 = Inr (net, w1)"
    and b: "\<not> (\<exists>b. create_reply inp = Responds 202 (Some b) \<and> truthy E (lookup b ''taskId''))"
  from run_refused [OF _ _ b] a
  show "polled (snd (run E inp)) = []" by blast
next
  assume a: "is_set (arg inp 2) \<and> setup_payment inp world0 = Inr (net, w1)"
    and c: "create_reply inp = Responds 202 (Some body) \<and> truthy E (lookup body ''taskId'')"
  from a c show "run E inp =
           (case announce E net body
                   (header E (request_of E inp (the (arg inp 2))) w1
                      \<lparr> posted := [(API_BASE @ ''/generation/create'',
                                     request_body (request_of E inp (the (arg inp 2))))] \<rparr>) of
              Inl t \<Rightarrow> t
            | Inr w3 \<Rightarrow> polling E inp net (model (request_of E inp (the (arg inp 2)))) body w3)"
    by (intro run_accepted) simp_all
qed

theorem submission_accepted_iff_witness:
  "truthy nat_engine (lookup (Obj [(''taskId'', Str ''task-1'')]) ''taskId'') \<and>
   (\<exists>w'. submit nat_engine (request_of nat_engine sunset_inputs ''A sunset over mountains'')
            (Responds 202 (Some (Obj [(''taskId'', Str ''task-1'')]))) world0 =
          Inr (Obj [(''taskId'', Str ''task-1'')], w') \<and> length (posted w') = 1) \<and>
   (\<exists>oc w'. submit nat_engine (request_of nat_engine sunset_inputs ''A sunset over mountains'')
            (Responds 202 (Some (Obj []))) world0 = Inl (oc, w') \<and> exit_code oc = 1 \<and>
          length (posted w') = 1 \<and> polled w' = []) \<and>
   is_set (arg empty_body_inputs 2) \<and>
   setup_payment empty_body_inputs world0 =
     Inr (''base'', emit (PaymentClient ''Base USDC (via x402)'') world0) \<and>
   length (posted (snd (run nat_engine empty_body_inputs))) = 1 \<and>
   exit_code (fst (run nat_engine empty_body_inputs)) = 1 \<and>
   polled (snd (run nat_engine empty_body_inputs)) = [] \<and>
   create_reply sunset_inputs = Responds 202 (Some (Obj [(''taskId'', Str ''task-1'')])) \<and>
   fst (run nat_engine sunset_inputs) = Exited 0 \<and>
   length (polled (snd (run nat_engine sunset_inputs))) = 2"
proof -
  let ?r = "request_of nat_engine sunset_inputs ''A sunset over mountains''"
  note t = submission_accepted_iff [of nat_engine "Obj [(''taskId'', Str ''task-1'')]"
      ?r world0 "Responds 202 (Some (Obj []))" "''task-1''" empty_body_inputs "''base''"
      "emit (PaymentClient ''Base USDC (via x402)'') world0"]
  have given: "is_set (arg empty_body_inputs 2)"
    by (simp add: empty_body_inputs_def sunset_inputs_def arg_def)
  have client: "setup_payment empty_body_inputs world0 =
     Inr (''base'', emit (PaymentClient ''Base USDC (via x402)'') world0)"
    by (simp add: empty_body_inputs_def sunset_inputs_def setup_payment_def)
  have reply: "create_reply empty_body_inputs = Responds 202 (Some (Obj []))"
    by (simp add: empty_body_inputs_def sunset_inputs_def)
  have ok: "\<exists>w'. submit nat_engine ?r (Responds 202 (Some (Obj [(''taskId'', Str ''task-1'')]))) world0 =
          Inr (Obj [(''taskId'', Str ''task-1'')], w') \<and> length (posted w') = 1"
    using t by (simp add: world0_def)
  have refused: "\<exists>oc w'. submit nat_engine ?r (Responds 202 (Some (Obj []))) world0 = Inl (oc, w') \<and>
          exit_code oc = 1 \<and> length (posted w') = 1 \<and> polled w' = []"
    using t by (auto simp: world0_def)
  have whole: "length (posted (snd (run nat_engine empty_body_inputs))) = 1 \<and>
      exit_code (fst (run nat_engine empty_body_inputs)) = 1 \<and>
      polled (snd (run nat_engine empty_body_inputs)) = []"
    using t given client reply by simp
  have accepted: "create_reply sunset_inputs = Responds 202 (Some (Obj [(''taskId'', Str ''task-1'')]))"
    by (simp add: sunset_inputs_def)
  have finished: "fst (run nat_engine sunset_inputs) = Exited 0 \<and>
      length (polled (snd (run nat_engine sunset_inputs))) = 2"
    by (simp add: sunset_run)
  show ?thesis
    using ok refused whole given client accepted finished by simp
qed



text \<open>
  Claim C7. A reply whose status is any string other than \<open>completed\<close> and \<open>failed\<close>,
  known to the client or not, does not end the process: the iteration prints one
  progress line with that string, the percentage and the elapsed time, and the loop
  goes on. The progress line stays in the output of the loop; when another attempt is
  left, the loop makes the next wait and the next status request; when none is left,
  it ends by the timeout alone. (The percentage is a number on the wire; the
  hypothesis asks no more than that it has a text.)
\<close>

theorem unknown_status_keeps_polling:
  assumes "to_string E taskId = Inr tid"
    and "status_reply inp i = Responds st (Some status)"
    and "lookup status ''status'' = Str s" "s \<noteq> ''completed''" "s \<noteq> ''failed''"
    and "percent_of E status = Inr pct" "to_string E pct = Inr p"
    and "i < maxPolls pol"
  shows "poll_once E net taskId pol (status_reply inp i) (elapsed_at inp i) w =
           Inr (w\<lparr> sleeps := sleeps w @ [pollIntervalMs pol],
                    polled := polled w @ [API_BASE @ ''/generation/'' @ tid @ ''/status''],
                    out := out w @ [Progress s p (elapsed_at inp i)] \<rparr>) \<and>
         poll_loop E inp net taskId pol i w =
           poll_loop E inp net taskId pol (Suc i)
             (w\<lparr> sleeps := sleeps w @ [pollIntervalMs pol],
                  polled := polled w @ [API_BASE @ ''/generation/'' @ tid @ ''/status''],
                  out := out w @ [Progress s p (elapsed_at inp i)] \<rparr>) \<and>
         prefix (out w @ [Progress s p (elapsed_at inp i)])
           (out (snd (poll_loop E inp net taskId pol i w))) \<and>
         (Suc i < maxPolls pol \<longrightarrow>
            prefix (sleeps w @ [pollIntervalMs pol, pollIntervalMs pol])
              (sleeps (snd (poll_loop E inp net taskId pol i w))) \<and>
            prefix (polled w @ [API_BASE @ ''/generation/'' @ tid @ ''/status'',
                                API_BASE @ ''/generation/'' @ tid @ ''/status''])
              (polled (snd (poll_loop E inp net taskId pol i w)))) \<and>
         (Suc i = maxPolls pol \<longrightarrow>
            poll_loop E inp net taskId pol i w =
              (Exited 1,
               w\<lparr> sleeps := sleeps w @ [pollIntervalMs pol],
                   polled := polled w @ [API_BASE @ ''/generation/'' @ tid @ ''/status''],
                   out := out w @ [Progress s p (elapsed_at inp i), TimedOut (timeoutLabel pol)] \<rparr>))"
proof -
  let ?w' = "w\<lparr> sleeps := sleeps w @ [pollIntervalMs pol],
                polled := polled w @ [API_BASE @ ''/generation/'' @ tid @ ''/status''],
                out := out w @ [Progress s p (elapsed_at inp i)] \<rparr>"
  have once: "poll_once E net taskId pol (status_reply inp i) (elapsed_at inp i) w = Inr ?w'"
    using assms(1-7) by (simp add: poll_once_def and_then_def eval_in_def emit_def Let_def)
  have eq: "poll_loop E inp net taskId pol i w = poll_loop E inp net taskId pol (Suc i) ?w'"
    by (rule poll_loop_continues [OF assms(8) once])
  have grows: "prefix (out w @ [Progress s p (elapsed_at inp i)])
           (out (snd (poll_loop E inp net taskId pol i w)))"
    unfolding eq using poll_loop_grows [of ?w' E inp net taskId pol "Suc i"] by simp
  have more: "Suc i < maxPolls pol \<longrightarrow>
            prefix (sleeps w @ [pollIntervalMs pol, pollIntervalMs pol])
              (sleeps (snd (poll_loop E inp net taskId pol i w))) \<and>
            prefix (polled w @ [API_BASE @ ''/generation/'' @ tid @ ''/status'',
                                API_BASE @ ''/generation/'' @ tid @ ''/status''])
              (polled (snd (poll_loop E inp net taskId pol i w)))"
    unfolding eq using poll_loop_next [OF assms(1), of "Suc i" pol ?w' inp net] by simp
  have last: "Suc i = maxPolls pol \<longrightarrow>
            poll_loop E inp net taskId pol i w =
              (Exited 1,
               w\<lparr> sleeps := sleeps w @ [pollIntervalMs pol],
                   polled := polled w @ [API_BASE @ ''/generation/'' @ tid @ ''/status''],
                   out := out w @ [Progress s p (elapsed_at inp i), TimedOut (timeoutLabel pol)] \<rparr>)"
  proof (intro impI)
    assume "Suc i = maxPolls pol"
    then have "\<not> Suc i < maxPolls pol" by simp
    then have "poll_loop E inp net taskId pol (Suc i) ?w' =
        (Exited 1, emit (TimedOut (timeoutLabel pol)) ?w')"
      by (rule poll_loop_timeout)
    then show "poll_loop E inp net taskId pol i w =
              (Exited 1,
               w\<lparr> sleeps := sleeps w @ [pollIntervalMs pol],
                   polled := polled w @ [API_BASE @ ''/generation/'' @ tid @ ''/status''],
                   out := out w @ [Progress s p (elapsed_at inp i), TimedOut (timeoutLabel pol)] \<rparr>)"
      unfolding eq by (simp add: emit_def)
  qed
  show ?thesis using once eq grows more last by blast
qed

theorem unknown_status_keeps_polling_witness:
  "status_reply rendering_inputs 0 = Responds 200 (Some rendering_status) \<and>
   lookup rendering_status ''status'' = Str ''rendering'' \<and>
   ''rendering'' \<noteq> ''completed'' \<and> ''rendering'' \<noteq> ''failed'' \<and>
   percent_of nat_engine rendering_status = Inr (Num 75) \<and>
   to_string nat_engine (Num 75) = Inr ''75'' \<and>
   Suc 0 < maxPolls (polling_policy ''sora-2'') \<and>
   poll_once nat_engine ''base'' (Str ''task-1'') (polling_policy ''sora-2'')
     (status_reply rendering_inputs 0) (elapsed_at rendering_inputs 0) world0 =
   Inr \<lparr> posted = [], polled = [''https://api.clawdvine.sh/generation/task-1/status''],
         sleeps = [5000], out = [Progress ''rendering'' ''75'' ''5''] \<rparr> \<and>
   prefix [Progress ''rendering'' ''75'' ''5'']
     (out (snd (poll_loop nat_engine rendering_inputs ''base'' (Str ''task-1'')
                  (polling_policy ''sora-2'') 0 world0))) \<and>
   prefix [5000, 5000]
     (sleeps (snd (poll_loop nat_engine rendering_inputs ''base'' (Str ''task-1'')
                     (polling_policy ''sora-2'') 0 world0))) \<and>
   prefix [''https://api.clawdvine.sh/generation/task-1/status'',
           ''https://api.clawdvine.sh/generation/task-1/status'']
     (polled (snd (poll_loop nat_engine rendering_inputs ''base'' (Str ''task-1'')
                     (polling_policy ''sora-2'') 0 world0)))"
proof -
  have ts: "to_string nat_engine (Str ''task-1'') = Inr ''task-1''" by simp
  have rep: "status_reply rendering_inputs 0 = Responds 200 (Some rendering_status)"
    by (simp add: rendering_inputs_def)
  have el: "elapsed_at rendering_inputs 0 = ''5''"
    by (simp add: rendering_inputs_def)
  have st: "lookup rendering_status ''status'' = Str ''rendering''"
    by (simp add: rendering_status_def)
  have pc: "percent_of nat_engine rendering_status = Inr (Num 75)"
    by (simp add: rendering_status_def percent_of_def get_def get_opt_def js_or_def nat_engine_def)
  have p: "to_string nat_engine (Num 75) = Inr ''75''"
    by (simp add: nat_engine_def decimal.simps digit_char_def)
  have i: "0 < maxPolls (polling_policy ''sora-2'')" by (simp add: polling_policy_def)
  have i2: "Suc 0 < maxPolls (polling_policy ''sora-2'')" by (simp add: polling_policy_def)
  have np: "\<not> isSlowModel ''sora-2''" by (simp add: isSlowModel_def SLOW_MODELS_def)
  have iv: "pollIntervalMs (polling_policy ''sora-2'') = 5000"
    using np by (simp add: polling_policy_def)
  have n1: "''rendering'' \<noteq> ''completed''" by simp
  have n2: "''rendering'' \<noteq> ''failed''" by simp
  note t = unknown_status_keeps_polling [OF ts rep st n1 n2 pc p i, of "''base''" world0]
  have once: "poll_once nat_engine ''base'' (Str ''task-1'') (polling_policy ''sora-2'')
     (status_reply rendering_inputs 0) (elapsed_at rendering_inputs 0) world0 =
   Inr \<lparr> posted = [], polled = [''https://api.clawdvine.sh/generation/task-1/status''],
         sleeps = [5000], out = [Progress ''rendering'' ''75'' ''5''] \<rparr>"
    using t [THEN conjunct1] el iv by (simp add: world0_def API_BASE_def)
  have printed: "prefix [Progress ''rendering'' ''75'' ''5'']
     (out (snd (poll_loop nat_engine rendering_inputs ''base'' (Str ''task-1'')
                  (polling_policy ''sora-2'') 0 world0)))"
    using t [THEN conjunct2, THEN conjunct2, THEN conjunct1] el by (simp add: world0_def)
  have again: "prefix [5000, 5000]
     (sleeps (snd (poll_loop nat_engine rendering_inputs ''base'' (Str ''task-1'')
                     (polling_policy ''sora-2'') 0 world0))) \<and>
   prefix [''https://api.clawdvine.sh/generation/task-1/status'',
           ''https://api.clawdvine.sh/generation/task-1/status'']
     (polled (snd (poll_loop nat_engine rendering_inputs ''base'' (Str ''task-1'')
                     (polling_policy ''sora-2'') 0 world0)))"
    using t [THEN conjunct2, THEN conjunct2, THEN conjunct2, THEN conjunct1] i2 iv
    by (simp add: world0_def API_BASE_def)
  show ?thesis
    using rep st pc p i2 once printed again by simp
qed

text \<open>
  Claim C10. A reply with status \<open>completed\<close> ends the process with exit code 0 also
  when \<open>result\<close>, \<open>result.generation\<close> or \<open>result.generation.video\<close> is missing: the
  three reads are optional at each level and give \<open>undefined\<close>, nothing checks the
  payload, and the video line prints the text \<open>undefined\<close>. (The other fields the
  report prints are strings on the wire; the hypothesis asks that they have a text.)
\<close>

theorem completed_without_video_exits_zero:
  assumes "to_string E taskId = Inr tid"
    and "lookup status ''status'' = Str ''completed''"
    and "nullish (lookup status ''result'') \<or>
         nullish (get_opt (lookup status ''result'') ''generation'') \<or>
         get_opt (get_opt (lookup status ''result'') ''generation'') ''video'' = Undefined"
    and "printable_report E status"
  shows "\<exists>w'. poll_once E net taskId pol (Responds st (Some status)) elapsed w = Inl (Exited 0, w') \<and>
           (\<exists>rest. out w' = out w @ [Complete elapsed, VideoLine ''undefined''] @ rest)"
proof -
  have "get_opt (get_opt (lookup status ''result'') ''generation'') ''video'' = Undefined"
    using assms(3) by (auto simp: get_opt_def)
  then have v: "to_string E (get_opt (get_opt (lookup status ''result'') ''generation'') ''video'')
      = Inr ''undefined''" by simp
  from poll_once_completed [OF assms(1,2,4) v, of net pol st elapsed w]
  show ?thesis by blast
qed

theorem completed_without_video_exits_zero_witness:
  "lookup bare_completed ''status'' = Str ''completed'' \<and>
   nullish (lookup bare_completed ''result'') \<and>
   printable_report nat_engine bare_completed \<and>
   (\<exists>w'. poll_once nat_engine ''base'' (Str ''task-1'') (polling_policy ''sora-2'')
            (Responds 200 (Some bare_completed)) ''5'' world0 = Inl (Exited 0, w') \<and>
         (\<exists>rest. out w' = [Complete ''5'', VideoLine ''undefined''] @ rest))"
proof -
  have ts: "to_string nat_engine (Str ''task-1'') = Inr ''task-1''" by simp
  have st: "lookup bare_completed ''status'' = Str ''completed''"
    by (simp add: bare_completed_def)
  have nr: "nullish (lookup bare_completed ''result'')"
    by (simp add: bare_completed_def)
  then have ab: "nullish (lookup bare_completed ''result'') \<or>
         nullish (get_opt (lookup bare_completed ''result'') ''generation'') \<or>
         get_opt (get_opt (lookup bare_completed ''result'') ''generation'') ''video'' = Undefined"
    by simp
  have pr: "printable_report nat_engine bare_completed"
    by (simp add: bare_completed_def printable_report_def renders_def get_opt_def)
  show ?thesis
    using completed_without_video_exits_zero [OF ts st ab pr, of "''base''"
        "polling_policy ''sora-2''" 200 "''5''" world0] st nr pr
    by (simp add: world0_def)
qed

text \<open>
  Claim C9. When a response has a transaction reference and a non-empty \<open>explorer\<close>
  string, that string is what is printed, after the submission as well as on
  completion, whatever the network and the shape of the reference; the derived link is
  used only when the \<open>explorer\<close> field is falsy (absent or empty).
\<close>

theorem server_explorer_wins:
  assumes "truthy E (lookup body ''txHash'')" "lookup body ''explorer'' = Str e" "e \<noteq> []"
  shows "explorer_of E net (lookup body ''explorer'') (lookup body ''txHash'') = Inr (Str e) \<and>
         (to_string E (lookup body ''taskId'') = Inr tid \<longrightarrow>
            announce E net body w = Inr (w\<lparr> out := out w @ [Queued tid, PaymentLine e, Polling] \<rparr>)) \<and>
         (to_string E taskId = Inr tid \<and> printable_report E body \<longrightarrow>
            (\<exists>w'. report_completed E net taskId elapsed body w = Inl (Exited 0, w') \<and>
                  last (out w') = TxLine e)) \<and>
         (\<not> truthy E ex \<longrightarrow>
            explorer_of E net ex (Str s) = Inr (Str (derived_explorer net s)))"
proof (intro conjI impI)
  show "explorer_of E net (lookup body ''explorer'') (lookup body ''txHash'') = Inr (Str e)"
    using assms by (simp add: explorer_of_def)
next
  assume "to_string E (lookup body ''taskId'') = Inr tid"
  with assms show "announce E net body w =
      Inr (w\<lparr> out := out w @ [Queued tid, PaymentLine e, Polling] \<rparr>)"
    by (rule announce_with_explorer)
next
  assume "to_string E taskId = Inr tid \<and> printable_report E body"
  with assms show "\<exists>w'. report_completed E net taskId elapsed body w = Inl (Exited 0, w') \<and>
                  last (out w') = TxLine e"
    using report_completed_with_explorer by blast
next
  assume "\<not> truthy E ex"
  then show "explorer_of E net ex (Str s) = Inr (Str (derived_explorer net s))"
    by (simp add: explorer_of_def)
qed

theorem server_explorer_wins_witness:
  "truthy nat_engine (lookup paid_body ''txHash'') \<and>
   explorer_of nat_engine ''base'' (lookup paid_body ''explorer'') (lookup paid_body ''txHash'') =
     Inr (Str ''https://example.org/tx/0xabc'') \<and>
   announce nat_engine ''base'' paid_body world0 =
     Inr \<lparr> posted = [], polled = [], sleeps = [],
           out = [Queued ''task-1'', PaymentLine ''https://example.org/tx/0xabc'', Polling] \<rparr> \<and>
   explorer_of nat_engine ''base'' (Str []) (Str ''0xabc'') = Inr (Str ''https://basescan.org/tx/0xabc'')"
proof -
  have tx: "truthy nat_engine (lookup paid_body ''txHash'')" by (simp add: paid_body_def)
  have ex: "lookup paid_body ''explorer'' = Str ''https://example.org/tx/0xabc''"
    by (simp add: paid_body_def)
  have ne: "''https://example.org/tx/0xabc'' \<noteq> []" by simp
  have tid: "to_string nat_engine (lookup paid_body ''taskId'') = Inr ''task-1''"
    by (simp add: paid_body_def)
  have np: "\<not> signature_pattern ''0xabc''" by (simp add: signature_pattern_def)
  show ?thesis
    using server_explorer_wins [OF tx ex ne, of "''base''" "''task-1''" world0 "Str ''task-1''"
        "''5''" "Str []" "''0xabc''"] tx tid np
    by (simp add: world0_def derived_explorer_def)
qed

text \<open>
  Claim C8. The object serialised as the POST body has the properties \<open>prompt\<close>,
  \<open>videoModel\<close>, \<open>duration\<close> and \<open>aspectRatio\<close> in every case, then \<open>agentId\<close> and
  \<open>imageData\<close> exactly when the request has them; no property is \<open>null\<close> or
  \<open>undefined\<close>, and a missing optional field is not a property at all. A run that
  posts sends this object for the request built from its arguments.
\<close>

theorem request_body_fields:
  "(\<exists>kvs. request_body r = Obj kvs \<and>
      map fst kvs =
        [''prompt'', ''videoModel'', ''duration'', ''aspectRatio'']
        @ (if is_set (agentId r) then [''agentId''] else [])
        @ (if is_set (imageData r) then [''imageData''] else []) \<and>
      Null \<notin> snd ` set kvs \<and> Undefined \<notin> snd ` set kvs) \<and>
   lookup (request_body r) ''prompt'' = Str (prompt r) \<and>
   lookup (request_body r) ''videoModel'' = Str (model r) \<and>
   lookup (request_body r) ''duration'' = Num (duration r) \<and>
   lookup (request_body r) ''aspectRatio'' = Str (aspectRatio r) \<and>
   lookup (request_body r) ''agentId'' =
     (if is_set (agentId r) then Str (the (agentId r)) else Undefined) \<and>
   lookup (request_body r) ''imageData'' =
     (if is_set (imageData r) then Str (the (imageData r)) else Undefined) \<and>
   (posted (snd (run E inp)) = [] \<or>
    posted (snd (run E inp)) =
      [(API_BASE @ ''/generation/create'', request_body (request_of E inp (the (arg inp 2))))]) \<and>
   agentId (request_of E inp p) =
     (if is_set (arg inp 5) then arg inp 5
      else if is_set (env_agent_id inp) then env_agent_id inp else None) \<and>
   imageData (request_of E inp p) = (if is_set (arg inp 7) then arg inp 7 else None)"
  by (simp add: request_body_def run_posted request_of_optional)

theorem request_body_fields_witness:
  "request_body image_request =
     Obj [(''prompt'', Str ''A cat surfing''), (''videoModel'', Str ''sora-2''),
          (''duration'', Num 8), (''aspectRatio'', Str ''16:9''),
          (''imageData'', Str ''https://x/cat.png'')] \<and>
   lookup (request_body image_request) ''agentId'' = Undefined \<and>
   posted (snd (run nat_engine sunset_inputs)) =
     [(''https://api.clawdvine.sh/generation/create'',
       Obj [(''prompt'', Str ''A sunset over mountains''), (''videoModel'', Str ''xai-grok-imagine''),
            (''duration'', Num 8), (''aspectRatio'', Str ''9:16'')])]"
  using request_body_fields [of image_request nat_engine sunset_inputs "[]"] sunset_run
  by (simp add: request_body_def image_request_def)

end
